theory Spec2Isabelle
  imports Complex_Main "HOL-Library.Multiset"
begin

section \<open>TruckHub: dashboard statistics, stock thresholds and order rendering\<close>

text \<open>
  The sources are TypeScript: \<^verbatim>\<open>server/storage.ts\<close> (\<^verbatim>\<open>getDashboardStats\<close>, reading the
  database through drizzle), \<^verbatim>\<open>shared/schema.ts\<close> (the tables) and the React pages and
  components: Reviews, Profile, Dashboard, Inventory, Protein inventory, Recent orders.

  Numbers. A JavaScript number is an IEEE 754 binary64 value. The arithmetic of the
  sources is embedded with its rounding: every \<^verbatim>\<open>+\<close>, \<^verbatim>\<open>*\<close>, \<^verbatim>\<open>/\<close> and \<^verbatim>\<open>Number(text)\<close> of
  \<^verbatim>\<open>getDashboardStats\<close>, of the average rating of the pages and of the protein cards returns
  the exact result rounded to the nearest binary64 value, and \<open>None\<close> is \<open>NaN\<close>. The rating
  distribution takes the rounding of a result as a parameter: \<open>binary64\<close> as JavaScript does
  it, or \<open>exact\<close>. The low-stock filters do no arithmetic: they compare the values of two
  decimal texts, and the embedding compares the exact values, which are ordered as their
  roundings are (\<open>binary64_decimal_order\<close> below).
\<close>

section \<open>The embedding\<close>

subsection \<open>Numbers\<close>

text \<open>\<^verbatim>\<open>Math.round\<close>: the nearest integer, a half going up (towards \<open>+\<infinity>\<close>).\<close>

definition Math_round :: "rat \<Rightarrow> int" where
  "Math_round x = \<lfloor>x + 1 / 2\<rfloor>"

text \<open>\<^verbatim>\<open>xs.reduce(f, init)\<close>; the callback takes the accumulator first.\<close>

definition reduce :: "('b \<Rightarrow> 'a \<Rightarrow> 'b) \<Rightarrow> 'b \<Rightarrow> 'a list \<Rightarrow> 'b" where
  "reduce f init xs = foldl f init xs"

text \<open>
  The rounding of binary64 arithmetic: every operation returns the exact result rounded to
  the nearest binary64 value, ties to the even significand. \<open>binary64 x\<close> is that rounding
  of the exact result \<open>x\<close>, for finite results (a result of magnitude \<open>2 ^ 1024\<close> or more
  is \<^verbatim>\<open>Infinity\<close> in JavaScript and has no counterpart here).
\<close>

definition pow2 :: "int \<Rightarrow> rat" where
  "pow2 e = (if 0 \<le> e then 2 ^ nat e else 1 / 2 ^ nat (- e))"

text \<open>The number of binary digits of a positive integer.\<close>

function bits :: "int \<Rightarrow> int" where
  "bits n = (if n \<le> 0 then 0 else 1 + bits (n div 2))"
  by pat_completeness auto
termination
  by (relation "measure nat") auto

declare bits.simps [simp del]

text \<open>The binary exponent \<open>e\<close> of a positive rational: \<open>2 ^ e \<le> x < 2 ^ (e + 1)\<close>.\<close>

definition exponent :: "rat \<Rightarrow> int" where
  "exponent x =
     (let (p, q) = quotient_of x; c = bits p - bits q
      in if pow2 c \<le> x then c else c - 1)"

definition roundTiesToEven :: "rat \<Rightarrow> int" where
  "roundTiesToEven y =
     (let f = \<lfloor>y\<rfloor>; d = y - of_int f
      in if d < 1 / 2 then f else if 1 / 2 < d then f + 1 else if even f then f else f + 1)"

text \<open>
  A binary64 value has 53 significant bits: it is a multiple of \<open>2 ^ (e - 52)\<close>, with \<open>e\<close>
  the exponent of the value, and of \<open>2 ^ (- 1074)\<close> below the normal range.
\<close>

definition binary64 :: "rat \<Rightarrow> rat" where
  "binary64 x =
     (if x = 0 then 0
      else let e = max (exponent \<bar>x\<bar>) (- 1022); ulp = pow2 (e - 52)
           in of_int (roundTiesToEven (x / ulp)) * ulp)"

definition exact :: "rat \<Rightarrow> rat" where
  "exact x = x"

text \<open>
  A number as an operand: a finite binary64 value, or \<open>None\<close> for \<open>NaN\<close>. \<^verbatim>\<open>+\<close>, \<^verbatim>\<open>*\<close> and \<^verbatim>\<open>/\<close>
  round the exact result, and \<open>NaN\<close> propagates. A division by zero is \<open>NaN\<close> or an infinity
  in JavaScript and \<open>None\<close> here: every division of the sources is guarded, so that no
  quotient by zero is ever used, and \<open>None\<close> stands for \<open>NaN\<close> in every comparison.
\<close>

type_synonym number = "rat option"

fun plus64 :: "number \<Rightarrow> number \<Rightarrow> number" where
  "plus64 (Some x) (Some y) = Some (binary64 (x + y))"
| "plus64 _ _ = None"

fun times64 :: "number \<Rightarrow> number \<Rightarrow> number" where
  "times64 (Some x) (Some y) = Some (binary64 (x * y))"
| "times64 _ _ = None"

fun divide64 :: "number \<Rightarrow> number \<Rightarrow> number" where
  "divide64 (Some x) (Some y) = (if y = 0 then None else Some (binary64 (x / y)))"
| "divide64 _ _ = None"

text \<open>\<^verbatim>\<open>a < b\<close> and \<^verbatim>\<open>a > b\<close>: false when either side is \<open>NaN\<close>.\<close>

fun less64 :: "number \<Rightarrow> number \<Rightarrow> bool" where
  "less64 (Some a) (Some b) = (a < b)"
| "less64 _ _ = False"

definition greater64 :: "number \<Rightarrow> number \<Rightarrow> bool" where
  "greater64 a b = less64 b a"

text \<open>\<^verbatim>\<open>Math.round\<close> of a number: an integer, which is a binary64 value as it is.\<close>

definition Math_round64 :: "number \<Rightarrow> number" where
  "Math_round64 x = map_option (\<lambda>v. of_int (Math_round v)) x"

subsection \<open>Decimal columns and their text\<close>

text \<open>
  \<^verbatim>\<open>decimal("...", { precision: 10, scale: 2 })\<close> is a whole number of hundredths. drizzle
  hands such a column to JavaScript as its text, \<^verbatim>\<open>"12.50"\<close>: the type of the field is
  \<^verbatim>\<open>string\<close>, the schema writes \<^verbatim>\<open>.default("0")\<close>, and the source wraps every use in
  \<^verbatim>\<open>Number(...)\<close>.
\<close>

datatype decimal = Hundredths int

fun decimalValue :: "decimal \<Rightarrow> rat" where
  "decimalValue (Hundredths n) = of_int n / 100"

definition digitChar :: "nat \<Rightarrow> char" where
  "digitChar d = ''0123456789'' ! d"

function digits :: "nat \<Rightarrow> string" where
  "digits n = (if n < 10 then [digitChar n] else digits (n div 10) @ [digitChar (n mod 10)])"
  by pat_completeness auto
termination
  by (relation "measure id") auto

declare digits.simps [simp del]

text \<open>The text of a decimal, as PostgreSQL prints a \<open>numeric(10,2)\<close>: \<^verbatim>\<open>0.00\<close>, \<^verbatim>\<open>-3.25\<close>.\<close>

fun decimalText :: "decimal \<Rightarrow> string" where
  "decimalText (Hundredths n) =
     (if n < 0 then ''-'' else '''') @ digits (nat \<bar>n\<bar> div 100) @ ''.'' @
     [digitChar (nat \<bar>n\<bar> mod 100 div 10), digitChar (nat \<bar>n\<bar> mod 10)]"

subsection \<open>JavaScript values and conversions\<close>

definition digitValue :: "char \<Rightarrow> nat option" where
  "digitValue c =
     map_of [(CHR ''0'', 0), (CHR ''1'', 1), (CHR ''2'', 2), (CHR ''3'', 3), (CHR ''4'', 4),
             (CHR ''5'', 5), (CHR ''6'', 6), (CHR ''7'', 7), (CHR ''8'', 8), (CHR ''9'', 9)] c"

text \<open>A run of decimal digits read as a number; \<open>None\<close> when a character is not a digit.\<close>

fun digitsValue :: "nat \<Rightarrow> string \<Rightarrow> nat option" where
  "digitsValue acc [] = Some acc"
| "digitsValue acc (c # cs) =
     (case digitValue c of None \<Rightarrow> None | Some d \<Rightarrow> digitsValue (10 * acc + d) cs)"

text \<open>
  \<^verbatim>\<open>Number(text)\<close> on the decimal literals: an optional sign, digits, an optional point and
  fraction digits, at least one digit in all; the empty text is \<open>0\<close>. \<open>None\<close> is \<open>NaN\<close>.
  JavaScript also reads surrounding white space, exponents, \<^verbatim>\<open>0x\<close> literals and
  \<^verbatim>\<open>Infinity\<close>; no decimal column prints those, and they are \<open>NaN\<close> here.
\<close>

definition unsignedNumber :: "string \<Rightarrow> rat option" where
  "unsignedNumber s =
     (let ip = takeWhile (\<lambda>c. c \<noteq> CHR ''.'') s;
          fp = drop 1 (dropWhile (\<lambda>c. c \<noteq> CHR ''.'') s)
      in if ip = [] \<and> fp = [] then None
         else case (digitsValue 0 ip, digitsValue 0 fp) of
                (Some i, Some f) \<Rightarrow> Some (of_nat i + of_nat f / 10 ^ length fp)
              | _ \<Rightarrow> None)"

definition Number_string :: "string \<Rightarrow> rat option" where
  "Number_string s =
     (case s of
        [] \<Rightarrow> Some 0
      | c # cs \<Rightarrow>
          if c = CHR ''-'' then map_option uminus (unsignedNumber cs)
          else if c = CHR ''+'' then unsignedNumber cs
          else unsignedNumber s)"

text \<open>
  \<^verbatim>\<open>Number(...)\<close> of a field the schema types as a decimal: the value of its text
  (\<open>Number_string_decimalText\<close> below), and 0 for \<^verbatim>\<open>null\<close>.
\<close>

fun Number_column :: "decimal option \<Rightarrow> rat" where
  "Number_column None = 0"
| "Number_column (Some d) = decimalValue d"

text \<open>
  \<^verbatim>\<open>Number(text)\<close> as the number that the arithmetic receives: the value of the text,
  rounded (the value of \<^verbatim>\<open>0.10\<close> is not a binary64 value). \<^verbatim>\<open>Number(field)\<close> of a nullable
  decimal column is that of its text, and 0 for \<^verbatim>\<open>null\<close>.
\<close>

definition Number_text :: "string \<Rightarrow> number" where
  "Number_text s = map_option binary64 (Number_string s)"

fun Number_field :: "decimal option \<Rightarrow> number" where
  "Number_field None = Some 0"
| "Number_field (Some d) = Number_text (decimalText d)"

text \<open>
  The pages receive the rows as JSON and type them \<^verbatim>\<open>any\<close>. A field is a primitive value:
  a decimal column is its text, a \<open>NULL\<close> is \<^verbatim>\<open>null\<close>, a missing property is
  \<^verbatim>\<open>undefined\<close>.
\<close>

datatype prim = JUndefined | JNull | JBool bool | JNum rat | JStr string

text \<open>Truthiness: of the texts only the empty one is falsy, of the numbers only zero.\<close>

fun truthy :: "prim \<Rightarrow> bool" where
  "truthy JUndefined = False"
| "truthy JNull = False"
| "truthy (JBool b) = b"
| "truthy (JNum x) = (x \<noteq> 0)"
| "truthy (JStr s) = (s \<noteq> [])"

text \<open>\<^verbatim>\<open>Number(v)\<close> of a primitive value; \<open>None\<close> is \<open>NaN\<close>.\<close>

fun Number_prim :: "prim \<Rightarrow> rat option" where
  "Number_prim JUndefined = None"
| "Number_prim JNull = Some 0"
| "Number_prim (JBool b) = Some (if b then 1 else 0)"
| "Number_prim (JNum x) = Some x"
| "Number_prim (JStr s) = Number_string s"

text \<open>\<^verbatim>\<open>a <= b\<close> on numbers: false when either side is \<open>NaN\<close>.\<close>

fun lessEq :: "rat option \<Rightarrow> rat option \<Rightarrow> bool" where
  "lessEq (Some a) (Some b) = (a \<le> b)"
| "lessEq _ _ = False"

text \<open>
  A JSON value: a primitive, an array, or an object with its own properties (each key
  once), as \<^verbatim>\<open>JSON.parse\<close> builds them.
\<close>

datatype jsval = JPrim prim | JArr "jsval list" | JObj "(string \<times> jsval) list"

datatype jsError = TypeError | SyntaxError

definition andThen :: "'e + 'a \<Rightarrow> ('a \<Rightarrow> 'e + 'b) \<Rightarrow> 'e + 'b" where
  "andThen r f = (case r of Inl e \<Rightarrow> Inl e | Inr v \<Rightarrow> f v)"

subsection \<open>The tables (shared/schema.ts)\<close>

type_synonym timestamp = int

record location =
  id :: int
  truckId :: int
  name :: string
  address :: string
  isActive :: "bool option"
  createdAt :: "timestamp option"

record "order" =
  id :: int
  truckId :: int
  orderNumber :: string
  totalAmount :: decimal
  status :: string
  createdAt :: "timestamp option"

record review =
  id :: int
  truckId :: int
  customerName :: string
  rating :: int
  createdAt :: "timestamp option"

text \<open>
  One record for both shapes of an inventory item: the row of \<open>inventory_items\<close>
  (\<open>currentStock\<close> a decimal, \<open>lowStockThreshold\<close> a nullable decimal) and the JSON object
  the pages receive (both fields primitive values).
\<close>

record ('s, 't) inventoryItem =
  id :: int
  truckId :: int
  name :: string
  currentStock :: 's
  unit :: string
  lowStockThreshold :: 't

type_synonym inventoryRow = "(decimal, decimal option) inventoryItem"
type_synonym inventoryJson = "(prim, prim) inventoryItem"

record proteinInventory =
  id :: int
  truckId :: int
  proteinType :: string
  allocatedAmount :: decimal
  currentStock :: decimal
  usedAmount :: "decimal option"

text \<open>The tables that \<^verbatim>\<open>getDashboardStats\<close> reads.\<close>

record db =
  locations :: "location list"
  orders :: "order list"
  reviews :: "review list"

subsection \<open>getDashboardStats (server/storage.ts)\<close>

record dashboardStats =
  todaySales :: number
  ordersToday :: nat
  averageRating :: number
  activeLocations :: nat

definition msPerDay :: int where
  "msPerDay = 86400000"

text \<open>\<^verbatim>\<open>today.setHours(0, 0, 0, 0)\<close>: the start of the day of a time in milliseconds.\<close>

definition setHours0 :: "timestamp \<Rightarrow> timestamp" where
  "setHours0 t = t - t mod msPerDay"

text \<open>
  \<^verbatim>\<open>db.select().from(table).where(condition)\<close>: the rows of the table that satisfy the
  condition, in the order in which the table holds them (the order in which the database
  returns them; the queries have no \<^verbatim>\<open>ORDER BY\<close>). A query returns its rows and the database
  after it, which is the database before it.
\<close>

definition select :: "(db \<Rightarrow> 'row list) \<Rightarrow> ('row \<Rightarrow> bool) \<Rightarrow> db \<Rightarrow> 'row list \<times> db" where
  "select table condition d = (filter condition (table d), d)"

text \<open>
  The method reads the clock (\<open>now\<close>) and the database and returns the statistics and the
  database after its three queries. \<^verbatim>\<open>eq(locations.isActive, true)\<close> does not match a
  \<open>NULL\<close>. \<open>today\<close> and \<open>tomorrow\<close> are computed and not used, as in the source.
  \<^verbatim>\<open>order.totalAmount\<close> is the text of the decimal; \<^verbatim>\<open>review.rating\<close> is a 32-bit integer, a
  binary64 value as it is, and so is the length of an array.
\<close>

definition getDashboardStats :: "timestamp \<Rightarrow> int \<Rightarrow> db \<Rightarrow> dashboardStats \<times> db" where
  "getDashboardStats now truckId' d =
     (let today = setHours0 now;
          tomorrow = today + msPerDay;
          (todayOrders, d1) = select orders (\<lambda>order. order.truckId order = truckId' \<and>
                                                      status order = ''completed'') d;
          todaySales' = reduce (\<lambda>sum order.
                                  plus64 sum (Number_text (decimalText (totalAmount order))))
                               (Some 0) todayOrders;
          ordersToday' = length todayOrders;
          (reviewList, d2) = select reviews (\<lambda>review. review.truckId review = truckId') d1;
          averageRating' =
            (if length reviewList > 0
             then divide64 (reduce (\<lambda>sum review.
                                      plus64 sum (Some (of_int (review.rating review))))
                                   (Some 0) reviewList)
                           (Some (of_nat (length reviewList)))
             else Some 0);
          (activeLocationsList, d3) =
             select locations (\<lambda>location. location.truckId location = truckId' \<and>
                                           isActive location = Some True) d2
      in (\<lparr>todaySales = todaySales',
           ordersToday = ordersToday',
           averageRating = divide64 (Math_round64 (times64 averageRating' (Some 10))) (Some 10),
           activeLocations = length activeLocationsList\<rparr>, d3))"

text \<open>
  The rounding of the \<^verbatim>\<open>return\<close> statement, \<^verbatim>\<open>Math.round(averageRating * 10) / 10\<close>, as a
  function of the unrounded mean, on the rationals: the product and the quotient are exact
  here, where \<open>getDashboardStats\<close> above rounds each.
\<close>

definition round1 :: "rat \<Rightarrow> rat" where
  "round1 x = of_int (Math_round (x * 10)) / 10"

text \<open>
  The specification's words for the same rounding: round-half-away-from-zero on
  \<open>value * 10\<close>, divided back by \<open>10\<close>.
\<close>

definition round_half_away_from_zero :: "rat \<Rightarrow> int" where
  "round_half_away_from_zero x = (if 0 \<le> x then \<lfloor>x + 1 / 2\<rfloor> else - \<lfloor>- x + 1 / 2\<rfloor>)"

definition round1_spec :: "rat \<Rightarrow> rat" where
  "round1_spec x = of_int (round_half_away_from_zero (x * 10)) / 10"

text \<open>
  The same words read as a computation on numbers: the product, the rounding to an integer
  and the quotient, each a binary64 value.
\<close>

definition round1_spec64 :: "number \<Rightarrow> number" where
  "round1_spec64 x =
     divide64 (map_option (\<lambda>v. of_int (round_half_away_from_zero v)) (times64 x (Some 10)))
              (Some 10)"

subsection \<open>The Reviews page and the Profile page\<close>

text \<open>
  Both pages fetch \<^verbatim>\<open>/api/reviews/:truckId\<close> (the truck's reviews, newest first) and compute
  \<^verbatim>\<open>reviews.length > 0 ? reviews.reduce((sum, review) => sum + review.rating, 0) / reviews.length : 0\<close>.
\<close>

definition averageRating_reviewsPage :: "review list \<Rightarrow> number" where
  "averageRating_reviewsPage reviews' =
     (if length reviews' > 0
      then divide64 (reduce (\<lambda>sum review. plus64 sum (Some (of_int (review.rating review))))
                            (Some 0) reviews')
                    (Some (of_nat (length reviews')))
      else Some 0)"

definition averageRating_profilePage :: "review list \<Rightarrow> number" where
  "averageRating_profilePage reviews' =
     (if length reviews' > 0
      then divide64 (reduce (\<lambda>sum review. plus64 sum (Some (of_int (review.rating review))))
                            (Some 0) reviews')
                    (Some (of_nat (length reviews')))
      else Some 0)"

record ratingBucket =
  rating :: int
  count :: nat
  percentage :: rat

text \<open>
  \<^verbatim>\<open>[5, 4, 3, 2, 1].map(rating => ({ rating, count: ..., percentage: ... }))\<close> of the Reviews
  page. The percentage is the result of a division and of a multiplication; \<open>fl\<close> is the
  rounding of each result (\<open>binary64\<close> in JavaScript, \<open>exact\<close> for the arithmetic of the
  rationals). The counts are lengths, which binary64 holds exactly (\<open>binary64_of_int\<close>
  below).
\<close>

definition ratingDistribution :: "(rat \<Rightarrow> rat) \<Rightarrow> review list \<Rightarrow> ratingBucket list" where
  "ratingDistribution fl reviews' =
     map (\<lambda>rating'.
            \<lparr>rating = rating',
             count = length (filter (\<lambda>review. review.rating review = rating') reviews'),
             percentage =
               (if length reviews' > 0
                then fl (fl (of_nat (length (filter (\<lambda>review. review.rating review = rating')
                                               reviews'))
                             / of_nat (length reviews')) * 100)
                else 0)\<rparr>)
         [5, 4, 3, 2, 1]"

subsection \<open>The low-stock filters of the Inventory page and of the Dashboard\<close>

text \<open>\<^verbatim>\<open>res.json(inventory)\<close> on the server and \<^verbatim>\<open>res.json()\<close> on the client.\<close>

definition inventoryItemJson :: "inventoryRow \<Rightarrow> inventoryJson" where
  "inventoryItemJson item =
     \<lparr>inventoryItem.id = inventoryItem.id item,
      inventoryItem.truckId = inventoryItem.truckId item,
      inventoryItem.name = inventoryItem.name item,
      inventoryItem.currentStock = JStr (decimalText (inventoryItem.currentStock item)),
      unit = unit item,
      lowStockThreshold =
        (case lowStockThreshold item of None \<Rightarrow> JNull | Some t \<Rightarrow> JStr (decimalText t))\<rparr>"

text \<open>
  The condition that \<^verbatim>\<open>getStockStatus\<close> and the two \<^verbatim>\<open>lowStockItems\<close> filters share:
  \<^verbatim>\<open>item.lowStockThreshold && Number(item.currentStock) <= Number(item.lowStockThreshold)\<close>.
\<close>

definition lowStockCondition :: "inventoryJson \<Rightarrow> bool" where
  "lowStockCondition item =
     (truthy (lowStockThreshold item) \<and>
      lessEq (Number_prim (inventoryItem.currentStock item))
             (Number_prim (lowStockThreshold item)))"

definition getStockStatus :: "inventoryJson \<Rightarrow> string \<times> string" where
  "getStockStatus item =
     (if lowStockCondition item then (''low'', ''destructive'') else (''normal'', ''default''))"

text \<open>The Inventory page: \<^verbatim>\<open>inventory.filter(item => ...)\<close>.\<close>

definition lowStockItems_inventoryPage :: "inventoryJson list \<Rightarrow> inventoryJson list" where
  "lowStockItems_inventoryPage inventory = filter lowStockCondition inventory"

text \<open>
  The Dashboard page: \<^verbatim>\<open>Array.isArray(inventory) ? inventory : []\<close>, then the same filter.
  \<open>None\<close> is query data that is not an array.
\<close>

definition lowStockItems_dashboard :: "inventoryJson list option \<Rightarrow> inventoryJson list" where
  "lowStockItems_dashboard inventory =
     (let inventoryArray = (case inventory of Some items \<Rightarrow> items | None \<Rightarrow> [])
      in filter lowStockCondition inventoryArray)"

text \<open>
  The specification's words: an item is flagged iff its lowStockThreshold is present
  (non-null) and currentStock \<open>\<le>\<close> lowStockThreshold.
\<close>

definition flagged_spec :: "inventoryRow \<Rightarrow> bool" where
  "flagged_spec item =
     (lowStockThreshold item \<noteq> None \<and>
      decimalValue (inventoryItem.currentStock item) \<le> Number_column (lowStockThreshold item))"

subsection \<open>The protein cards\<close>

definition getUsagePercentage :: "number \<Rightarrow> number \<Rightarrow> number" where
  "getUsagePercentage used allocated =
     (if greater64 allocated (Some 0) then times64 (divide64 used allocated) (Some 100)
      else Some 0)"

record proteinUsage =
  usagePercent :: number
  remaining :: number
  isLow :: bool

text \<open>
  The callback of \<^verbatim>\<open>proteinInventory.map((protein: any) => ...)\<close>, up to the rendering:
  \<^verbatim>\<open>usagePercent\<close>, \<^verbatim>\<open>remaining\<close> and \<^verbatim>\<open>isLow\<close>. \<open>used_amount\<close> is nullable. The literal
  \<^verbatim>\<open>0.2\<close> is the binary64 value nearest to 2/10.
\<close>

definition computeProteinUsage :: "proteinInventory \<Rightarrow> proteinUsage" where
  "computeProteinUsage protein =
     (let usagePercent' = getUsagePercentage (Number_field (usedAmount protein))
                            (Number_text (decimalText (allocatedAmount protein)));
          remaining' = Number_text (decimalText (proteinInventory.currentStock protein));
          isLow' = less64 remaining'
                     (times64 (Number_text (decimalText (allocatedAmount protein)))
                              (Some (binary64 (2 / 10))))
      in \<lparr>usagePercent = usagePercent', remaining = remaining', isLow = isLow'\<rparr>)"

subsection \<open>formatOrderItems (components/recent-orders.tsx)\<close>

text \<open>
  \<open>items\<close> is typed \<^verbatim>\<open>any\<close>: the column is \<^verbatim>\<open>jsonb\<close>, and \<^verbatim>\<open>insertOrderSchema\<close> accepts any
  JSON value for it.
\<close>

text \<open>
  Two built-ins of the runtime are parameters of the model: \<^verbatim>\<open>JSON.parse\<close>, with \<open>None\<close>
  for a text it rejects (it throws \<^verbatim>\<open>SyntaxError\<close>), and the conversion of a number to
  text.
\<close>

type_synonym jsonParse = "string \<Rightarrow> jsval option"
type_synonym numberToString = "rat \<Rightarrow> string"

text \<open>
  \<^verbatim>\<open>ToString\<close>, which a template literal applies to each substitution. An array is joined
  with commas, \<^verbatim>\<open>null\<close> and \<^verbatim>\<open>undefined\<close> elements giving the empty text. An object is
  \<^verbatim>\<open>[object Object]\<close>, unless it has a property \<^verbatim>\<open>toString\<close> of its own: a JSON value is not
  callable, \<^verbatim>\<open>valueOf\<close> does not return a primitive either, and the conversion throws
  \<^verbatim>\<open>TypeError\<close>.
\<close>

fun toString :: "numberToString \<Rightarrow> jsval \<Rightarrow> jsError + string"
  and joinElements :: "numberToString \<Rightarrow> jsval list \<Rightarrow> jsError + string"
  and element :: "numberToString \<Rightarrow> jsval \<Rightarrow> jsError + string" where
  "toString str (JPrim JUndefined) = Inr ''undefined''"
| "toString str (JPrim JNull) = Inr ''null''"
| "toString str (JPrim (JBool b)) = Inr (if b then ''true'' else ''false'')"
| "toString str (JPrim (JNum x)) = Inr (str x)"
| "toString str (JPrim (JStr s)) = Inr s"
| "toString str (JArr xs) = joinElements str xs"
| "toString str (JObj kvs) =
     (if map_of kvs ''toString'' = None then Inr ''[object Object]'' else Inl TypeError)"
| "joinElements str [] = Inr ''''"
| "joinElements str [x] = element str x"
| "joinElements str (x # y # ys) =
     (case element str x of
        Inl e \<Rightarrow> Inl e
      | Inr s \<Rightarrow> (case joinElements str (y # ys) of
                    Inl e \<Rightarrow> Inl e
                  | Inr t \<Rightarrow> Inr (s @ '','' @ t)))"
| "element str (JPrim JUndefined) = Inr ''''"
| "element str (JPrim JNull) = Inr ''''"
| "element str (JPrim (JBool b)) = toString str (JPrim (JBool b))"
| "element str (JPrim (JNum x)) = toString str (JPrim (JNum x))"
| "element str (JPrim (JStr s)) = toString str (JPrim (JStr s))"
| "element str (JArr xs) = toString str (JArr xs)"
| "element str (JObj kvs) = toString str (JObj kvs)"

text \<open>
  \<^verbatim>\<open>item.quantity\<close> and \<^verbatim>\<open>item.name\<close>: reading a property of \<^verbatim>\<open>null\<close> or \<^verbatim>\<open>undefined\<close>
  throws \<^verbatim>\<open>TypeError\<close>; an object gives its own property, and every other read of these
  two names gives \<^verbatim>\<open>undefined\<close> (no prototype defines them).
\<close>

fun getProperty :: "jsval \<Rightarrow> string \<Rightarrow> jsError + jsval" where
  "getProperty (JPrim JUndefined) key = Inl TypeError"
| "getProperty (JPrim JNull) key = Inl TypeError"
| "getProperty (JObj kvs) key =
     (case map_of kvs key of None \<Rightarrow> Inr (JPrim JUndefined) | Some v \<Rightarrow> Inr v)"
| "getProperty v key = Inr (JPrim JUndefined)"

text \<open>The template literal \<^verbatim>\<open>`${item.quantity}x ${item.name}`\<close>, left to right.\<close>

definition renderItem :: "numberToString \<Rightarrow> jsval \<Rightarrow> jsError + string" where
  "renderItem str item =
     andThen (getProperty item ''quantity'') (\<lambda>quantity.
     andThen (toString str quantity) (\<lambda>q.
     andThen (getProperty item ''name'') (\<lambda>name.
     andThen (toString str name) (\<lambda>n.
     Inr (q @ ''x '' @ n)))))"

text \<open>\<^verbatim>\<open>xs.map(f)\<close> with a callback that may throw: the first exception ends the call.\<close>

fun mapThrowing :: "('a \<Rightarrow> 'e + 'b) \<Rightarrow> 'a list \<Rightarrow> 'e + 'b list" where
  "mapThrowing f [] = Inr []"
| "mapThrowing f (x # xs) =
     andThen (f x) (\<lambda>y. andThen (mapThrowing f xs) (\<lambda>ys. Inr (y # ys)))"

text \<open>\<^verbatim>\<open>ss.join(sep)\<close> on an array of texts.\<close>

fun join :: "string \<Rightarrow> string list \<Rightarrow> string" where
  "join sep [] = ''''"
| "join sep [s] = s"
| "join sep (s # t # ts) = s @ sep @ join sep (t # ts)"

text \<open>
  The first statement: a text is decoded, and \<open>None\<close> is the \<^verbatim>\<open>catch\<close> branch; any other
  value is kept as it is.
\<close>

fun givenOrDecoded :: "jsonParse \<Rightarrow> jsval \<Rightarrow> jsval option" where
  "givenOrDecoded JSON_parse (JPrim (JStr s)) = JSON_parse s"
| "givenOrDecoded JSON_parse items = Some items"

fun isArray :: "jsval \<Rightarrow> bool" where
  "isArray (JArr xs) = True"
| "isArray v = False"

definition formatOrderItems :: "jsonParse \<Rightarrow> numberToString \<Rightarrow> jsval \<Rightarrow> jsError + string" where
  "formatOrderItems JSON_parse str items =
     (case givenOrDecoded JSON_parse items of
        None \<Rightarrow> Inr ''Invalid order data''
      | Some items' \<Rightarrow>
          (case items' of
             JArr xs \<Rightarrow> andThen (mapThrowing (renderItem str) xs) (\<lambda>ss. Inr (join '', '' ss))
           | _ \<Rightarrow> Inr ''No items''))"

text \<open>
  What makes an entry render. \<open>stringable\<close>: no object that \<^verbatim>\<open>ToString\<close> reaches has a
  \<^verbatim>\<open>toString\<close> property of its own. \<open>wellFormedEntry\<close>: the entry is neither \<^verbatim>\<open>null\<close> nor
  \<^verbatim>\<open>undefined\<close>, and its quantity and name are stringable.
\<close>

fun stringable :: "jsval \<Rightarrow> bool" where
  "stringable (JPrim p) = True"
| "stringable (JArr xs) = list_all stringable xs"
| "stringable (JObj kvs) = (map_of kvs ''toString'' = None)"

fun wellFormedEntry :: "jsval \<Rightarrow> bool" where
  "wellFormedEntry (JPrim JUndefined) = False"
| "wellFormedEntry (JPrim JNull) = False"
| "wellFormedEntry (JObj kvs) =
     ((case map_of kvs ''quantity'' of None \<Rightarrow> True | Some v \<Rightarrow> stringable v) \<and>
      (case map_of kvs ''name'' of None \<Rightarrow> True | Some v \<Rightarrow> stringable v))"
| "wellFormedEntry v = True"

subsection \<open>Example data\<close>

definition review_of :: "int \<Rightarrow> int \<Rightarrow> int \<Rightarrow> review" where
  "review_of i t r =
     \<lparr>review.id = i, review.truckId = t, customerName = ''Ana'', review.rating = r,
      review.createdAt = Some (1000 * i)\<rparr>"

definition order_of :: "int \<Rightarrow> int \<Rightarrow> string \<Rightarrow> int \<Rightarrow> order" where
  "order_of i t s cents =
     \<lparr>order.id = i, order.truckId = t, orderNumber = ''A-'' @ digits (nat i),
      totalAmount = Hundredths cents, status = s, order.createdAt = Some (1000 * i)\<rparr>"

definition location_of :: "int \<Rightarrow> int \<Rightarrow> bool option \<Rightarrow> location" where
  "location_of i t active =
     \<lparr>location.id = i, location.truckId = t, location.name = ''Market'',
      address = ''1 Main St'', isActive = active, location.createdAt = None\<rparr>"

text \<open>
  Truck 1 has a completed order of 12.50 and a pending one of 9.00, the ratings 5, 4, 5,
  and one active location of three; truck 2 has a completed order, a review and an active
  location.
\<close>

definition exampleDb :: db where
  "exampleDb =
     \<lparr>locations = [location_of 1 1 (Some True), location_of 2 1 (Some False),
                   location_of 3 1 None, location_of 4 2 (Some True)],
      orders = [order_of 1 1 ''completed'' 1250, order_of 2 1 ''pending'' 900,
                order_of 3 2 ''completed'' 500],
      reviews = [review_of 1 1 5, review_of 2 2 1, review_of 3 1 4, review_of 4 1 5]\<rparr>"

definition emptyDb :: db where
  "emptyDb = \<lparr>locations = [], orders = [], reviews = []\<rparr>"

text \<open>The same rows as \<open>exampleDb\<close>, each table in the reverse order.\<close>

definition shuffledDb :: db where
  "shuffledDb =
     \<lparr>locations = rev (locations exampleDb), orders = rev (orders exampleDb),
      reviews = rev (reviews exampleDb)\<rparr>"

text \<open>Two completed orders of truck 1, of 0.10 and of 0.20.\<close>

definition dimesDb :: db where
  "dimesDb = \<lparr>locations = [],
     orders = [order_of 1 1 ''completed'' 10, order_of 2 1 ''completed'' 20], reviews = []\<rparr>"

text \<open>
  Three completed orders of truck 1, of 0.10, 0.20 and 0.30, and the same three rows as
  the database returns them in the opposite order.
\<close>

definition ascendingDb :: db where
  "ascendingDb = \<lparr>locations = [],
     orders = [order_of 1 1 ''completed'' 10, order_of 2 1 ''completed'' 20,
               order_of 3 1 ''completed'' 30], reviews = []\<rparr>"

definition descendingDb :: db where
  "descendingDb = \<lparr>locations = [],
     orders = [order_of 3 1 ''completed'' 30, order_of 2 1 ''completed'' 20,
               order_of 1 1 ''completed'' 10], reviews = []\<rparr>"

text \<open>Three reviews, with the ratings 1, 2 and 3.\<close>

definition threeReviews :: "review list" where
  "threeReviews = [review_of 1 1 1, review_of 2 1 2, review_of 3 1 3]"

text \<open>Inventory rows: a threshold of zero, a threshold above the stock, no threshold.\<close>

definition napkins :: inventoryRow where
  "napkins =
     \<lparr>inventoryItem.id = 7, inventoryItem.truckId = 1, inventoryItem.name = ''Napkins'',
      inventoryItem.currentStock = Hundredths 0, unit = ''boxes'',
      lowStockThreshold = Some (Hundredths 0)\<rparr>"

definition carnitas :: inventoryRow where
  "carnitas =
     \<lparr>inventoryItem.id = 8, inventoryItem.truckId = 1, inventoryItem.name = ''Carnitas'',
      inventoryItem.currentStock = Hundredths 150, unit = ''lbs'',
      lowStockThreshold = Some (Hundredths 200)\<rparr>"

definition salsa :: inventoryRow where
  "salsa =
     \<lparr>inventoryItem.id = 9, inventoryItem.truckId = 1, inventoryItem.name = ''Salsa'',
      inventoryItem.currentStock = Hundredths 0, unit = ''cups'',
      lowStockThreshold = None\<rparr>"

text \<open>
  Protein rows: 50 lbs allocated, 8 in stock, 20 used; 3 lbs allocated and 0.60 in stock,
  which is 20% of 3; 1 lb allocated, 0.07 used.
\<close>

definition pork :: proteinInventory where
  "pork =
     \<lparr>proteinInventory.id = 1, proteinInventory.truckId = 1, proteinType = ''pork'',
      allocatedAmount = Hundredths 5000, proteinInventory.currentStock = Hundredths 800,
      usedAmount = Some (Hundredths 2000)\<rparr>"

definition chicken :: proteinInventory where
  "chicken =
     \<lparr>proteinInventory.id = 2, proteinInventory.truckId = 1, proteinType = ''chicken'',
      allocatedAmount = Hundredths 300, proteinInventory.currentStock = Hundredths 60,
      usedAmount = None\<rparr>"

definition beef :: proteinInventory where
  "beef =
     \<lparr>proteinInventory.id = 3, proteinInventory.truckId = 1, proteinType = ''beef'',
      allocatedAmount = Hundredths 100, proteinInventory.currentStock = Hundredths 93,
      usedAmount = Some (Hundredths 7)\<rparr>"

text \<open>An order of two tacos and a burrito, and an example runtime.\<close>

definition tacoOrder :: jsval where
  "tacoOrder =
     JArr [JObj [(''name'', JPrim (JStr ''Taco'')), (''quantity'', JPrim (JNum 2)),
                 (''price'', JPrim (JNum (25 / 2)))],
           JObj [(''name'', JPrim (JStr ''Burrito'')), (''quantity'', JPrim (JNum 1)),
                 (''price'', JPrim (JNum 9))]]"

text \<open>The conversion of a whole number to text (decimal digits, a minus sign).\<close>

definition wholeNumberToString :: numberToString where
  "wholeNumberToString x = (if x < 0 then ''-'' else '''') @ digits (nat \<bar>\<lfloor>x\<rfloor>\<bar>)"

text \<open>
  \<^verbatim>\<open>JSON.parse\<close> on the texts of the examples: the text of \<open>tacoOrder\<close>, \<^verbatim>\<open>[null]\<close>, an object,
  and \<^verbatim>\<open>not json\<close>, which is rejected. No other text is used.
\<close>

definition JSON_parse_examples :: jsonParse where
  \<open>JSON_parse_examples s =
     (if s = ''[{"name":"Taco","quantity":2,"price":12.5},{"name":"Burrito","quantity":1,"price":9}]''
      then Some tacoOrder
      else if s = ''[null]'' then Some (JArr [JPrim JNull])
      else if s = ''{"name":"Taco"}'' then Some (JObj [(''name'', JPrim (JStr ''Taco''))])
      else None)\<close>

section \<open>Properties\<close>

subsection \<open>Auxiliary facts\<close>

text \<open>The floor of a quotient of numerals, for the evaluation of examples.\<close>

lemma floor_numeral_div:
  "\<lfloor>(numeral a :: rat) / numeral b\<rfloor> = numeral a div numeral b"
  using floor_divide_of_int_eq [of "numeral a" "numeral b", where ?'a = rat] by simp

lemma floor_neg_numeral_div:
  "\<lfloor>- ((numeral a :: rat) / numeral b)\<rfloor> = - numeral a div numeral b"
  using floor_divide_of_int_eq [of "- numeral a" "numeral b", where ?'a = rat] by simp

lemma floor_one_div:
  "\<lfloor>(1 :: rat) / numeral b\<rfloor> = 1 div numeral b"
  using floor_divide_of_int_eq [of 1 "numeral b", where ?'a = rat] by simp

lemmas floor_eval = floor_numeral_div floor_neg_numeral_div floor_one_div

lemma Math_round_of_int: "Math_round (of_int k) = k"
  unfolding Math_round_def by (simp add: floor_unique)

lemma round_half_away_of_int: "round_half_away_from_zero (of_int k) = k"
proof -
  have "\<lfloor>(of_int k :: rat) + 1 / 2\<rfloor> = k" by (simp add: floor_unique)
  moreover have "\<lfloor>- (of_int k :: rat) + 1 / 2\<rfloor> = - k"
    by (rule floor_unique) simp_all
  ultimately show ?thesis unfolding round_half_away_from_zero_def by simp
qed

lemma round_half_away_nonneg: "0 \<le> x \<Longrightarrow> round_half_away_from_zero x = Math_round x"
  by (simp add: round_half_away_from_zero_def Math_round_def)

subsection \<open>The text of a decimal, read back by Number\<close>

lemma digit_cases:
  assumes "d < (10::nat)"
  shows "d = 0 \<or> d = 1 \<or> d = 2 \<or> d = 3 \<or> d = 4 \<or> d = 5 \<or> d = 6 \<or> d = 7 \<or> d = 8 \<or> d = 9"
  using assms by arith

lemma digitValue_digitChar: "d < 10 \<Longrightarrow> digitValue (digitChar d) = Some d"
  using digit_cases [of d] by (auto simp: digitValue_def digitChar_def)

lemma digitChar_not_point: "d < 10 \<Longrightarrow> digitChar d \<noteq> CHR ''.''"
  using digit_cases [of d] by (auto simp: digitChar_def)

lemma digitChar_not_sign: "d < 10 \<Longrightarrow> digitChar d \<noteq> CHR ''-'' \<and> digitChar d \<noteq> CHR ''+''"
  using digit_cases [of d] by (auto simp: digitChar_def)

lemma digitsValue_snoc:
  "digitsValue acc (cs @ [c]) =
     (case digitsValue acc cs of None \<Rightarrow> None
      | Some a \<Rightarrow> (case digitValue c of None \<Rightarrow> None | Some d \<Rightarrow> Some (10 * a + d)))"
  by (induction cs arbitrary: acc) (auto split: option.splits)

lemma digitsValue_digits: "digitsValue 0 (digits n) = Some n"
proof (induction n rule: digits.induct)
  case (1 n)
  show ?case
  proof (cases "n < 10")
    case True
    then show ?thesis by (simp add: digits.simps [of n] digitValue_digitChar)
  next
    case False
    with 1 have "digitsValue 0 (digits (n div 10)) = Some (n div 10)" by simp
    with False show ?thesis
      by (simp add: digits.simps [of n] digitsValue_snoc digitValue_digitChar)
  qed
qed

lemma digits_chars: "c \<in> set (digits n) \<Longrightarrow> \<exists>d < 10. c = digitChar d"
proof (induction n rule: digits.induct)
  case (1 n)
  show ?case
  proof (cases "n < 10")
    case True
    with 1(2) show ?thesis by (auto simp: digits.simps [of n])
  next
    case False
    with 1 show ?thesis
      by (auto simp: digits.simps [of n] intro: exI [of _ "n mod 10"])
  qed
qed

lemma digits_no_point: "\<forall>c \<in> set (digits n). c \<noteq> CHR ''.''"
proof
  fix c assume "c \<in> set (digits n)"
  then obtain d where "d < 10" "c = digitChar d" using digits_chars by blast
  then show "c \<noteq> CHR ''.''" using digitChar_not_point by simp
qed

lemma digits_hd: "\<exists>c cs. digits n = c # cs \<and> c \<noteq> CHR ''-'' \<and> c \<noteq> CHR ''+''"
proof -
  have "digits n \<noteq> []" by (simp add: digits.simps [of n])
  then obtain c cs where eq: "digits n = c # cs" by (cases "digits n") auto
  then have "c \<in> set (digits n)" by simp
  then obtain d where "d < 10" "c = digitChar d" using digits_chars by blast
  with eq show ?thesis using digitChar_not_sign by blast
qed

lemma unsignedNumber_text:
  assumes "a < 10" "b < 10"
  shows "unsignedNumber (digits k @ ''.'' @ [digitChar a, digitChar b])
         = Some (of_nat k + of_nat (10 * a + b) / 100)"
proof -
  have ip: "takeWhile (\<lambda>c. c \<noteq> CHR ''.'') (digits k @ ''.'' @ [digitChar a, digitChar b]) = digits k"
    using digits_no_point [of k] by (simp add: takeWhile_append2)
  have fp: "dropWhile (\<lambda>c. c \<noteq> CHR ''.'') (digits k @ ''.'' @ [digitChar a, digitChar b])
            = ''.'' @ [digitChar a, digitChar b]"
    using digits_no_point [of k] by (simp add: dropWhile_append2)
  show ?thesis
    unfolding unsignedNumber_def ip fp using assms
    by (simp add: Let_def digitsValue_digits digitValue_digitChar)
qed

lemma last_two_digits: "10 * ((m::nat) mod 100 div 10) + m mod 10 = m mod 100"
proof -
  have "m mod 10 = m mod 100 mod 10" by (simp add: mod_mod_cancel)
  then show ?thesis by (simp only: mult_div_mod_eq)
qed

lemma hundredths_split: "(of_nat (m div 100) + of_nat (m mod 100) / 100 :: rat) = of_nat m / 100"
proof -
  have "(of_nat (100 * (m div 100) + m mod 100) :: rat) = of_nat m"
    by (simp only: mult_div_mod_eq)
  then have "(100 * of_nat (m div 100) + of_nat (m mod 100) :: rat) = of_nat m"
    by (simp only: of_nat_add of_nat_mult of_nat_numeral)
  then show ?thesis by (simp add: field_simps)
qed

lemma Number_string_unsigned:
  "s = c # cs \<Longrightarrow> c \<noteq> CHR ''-'' \<Longrightarrow> c \<noteq> CHR ''+'' \<Longrightarrow> Number_string s = unsignedNumber s"
  by (simp add: Number_string_def)

lemma Number_string_decimalText: "Number_string (decimalText d) = Some (decimalValue d)"
proof (cases d)
  case (Hundredths n)
  define m where "m = nat \<bar>n\<bar>"
  define body where "body = digits (m div 100) @ ''.'' @
                [digitChar (m mod 100 div 10), digitChar (m mod 10)]"
  have "unsignedNumber body
        = Some (of_nat (m div 100) + of_nat (10 * (m mod 100 div 10) + m mod 10) / 100)"
    unfolding body_def by (rule unsignedNumber_text) simp_all
  then have body: "unsignedNumber body = Some (of_nat m / 100)"
    by (simp only: last_two_digits hundredths_split)
  obtain c cs where "digits (m div 100) = c # cs" "c \<noteq> CHR ''-''" "c \<noteq> CHR ''+''"
    using digits_hd by blast
  then have hd: "body = c # tl body" "c \<noteq> CHR ''-''" "c \<noteq> CHR ''+''"
    by (simp_all add: body_def)
  show ?thesis
  proof (cases "n < 0")
    case True
    then have shape: "decimalText d = CHR ''-'' # body"
      by (simp add: Hundredths body_def m_def)
    have "(of_nat m :: rat) = - of_int n" using True by (simp add: m_def)
    then show ?thesis
      unfolding shape by (simp add: Number_string_def body Hundredths)
  next
    case False
    then have shape: "decimalText d = body"
      by (simp add: Hundredths body_def m_def)
    have amount: "(of_nat m :: rat) = of_int n" using False by (simp add: m_def)
    have "Number_string body = unsignedNumber body"
      using hd by (rule Number_string_unsigned)
    then show ?thesis
      unfolding shape by (simp add: body amount Hundredths)
  qed
qed

lemma decimalText_not_empty: "decimalText d \<noteq> []"
  by (cases d) simp

subsection \<open>binary64 holds the integers below \<open>2 ^ 53\<close> exactly\<close>

lemma bits_nonneg: "0 \<le> bits n"
  by (induction n rule: bits.induct) (simp add: bits.simps)

lemma bits_bound: "n < 2 ^ k \<Longrightarrow> bits n \<le> int k"
proof (induction k arbitrary: n)
  case 0
  then show ?case by (simp add: bits.simps [of n])
next
  case (Suc k)
  show ?case
  proof (cases "n \<le> 0")
    case True
    then show ?thesis by (simp add: bits.simps [of n])
  next
    case False
    from Suc.prems have "n div 2 < 2 ^ k" by simp
    then have "bits (n div 2) \<le> int k" by (rule Suc.IH)
    with False show ?thesis by (simp add: bits.simps [of n])
  qed
qed

lemma bits_positive: "0 < n \<Longrightarrow> 1 \<le> bits n"
  using bits_nonneg [of "n div 2"] by (simp add: bits.simps [of n])

lemma roundTiesToEven_of_int: "roundTiesToEven (of_int m) = m"
  by (simp add: roundTiesToEven_def)

lemma exponent_of_int:
  assumes "0 < n" "n < 2 ^ 53"
  shows "0 \<le> exponent (of_int n) + 1" "exponent (of_int n) \<le> 52"
proof -
  have one: "bits 1 = 1" by (simp add: bits.simps [of 1] bits.simps [of 0])
  have "bits n \<le> 53" using bits_bound [of n 53] assms by simp
  moreover have "1 \<le> bits n" using assms(1) by (rule bits_positive)
  ultimately show "0 \<le> exponent (of_int n) + 1" "exponent (of_int n) \<le> 52"
    by (simp_all add: exponent_def one Let_def)
qed

lemma binary64_positive_int:
  assumes "0 < n" "n < 2 ^ 53"
  shows "binary64 (of_int n) = of_int n" "binary64 (of_int (- n)) = of_int (- n)"
proof -
  define e where "e = max (exponent (of_int n)) (- 1022)"
  define k where "k = nat (52 - e)"
  have "e \<le> 52" "- 1022 \<le> e"
    using exponent_of_int [OF assms] by (simp_all add: e_def)
  then have ulp: "pow2 (e - 52) = 1 / 2 ^ k"
    by (cases "e = 52") (simp_all add: pow2_def k_def)
  have "(of_int n :: rat) / pow2 (e - 52) = of_int (n * 2 ^ k)"
    by (simp add: ulp)
  then have pos: "of_int (roundTiesToEven (of_int n / pow2 (e - 52))) * pow2 (e - 52)
             = (of_int n :: rat)"
    by (simp only: roundTiesToEven_of_int) (simp add: ulp)
  have "(of_int (- n) :: rat) / pow2 (e - 52) = of_int (- n * 2 ^ k)"
    by (simp add: ulp)
  then have neg: "of_int (roundTiesToEven (of_int (- n) / pow2 (e - 52))) * pow2 (e - 52)
             = (of_int (- n) :: rat)"
    by (simp only: roundTiesToEven_of_int) (simp add: ulp)
  have abs: "\<bar>of_int n :: rat\<bar> = of_int n" "\<bar>of_int (- n) :: rat\<bar> = of_int n"
    using assms by simp_all
  show "binary64 (of_int n) = of_int n"
    using assms pos unfolding binary64_def abs Let_def e_def by simp
  show "binary64 (of_int (- n)) = of_int (- n)"
    using assms neg unfolding binary64_def abs Let_def e_def by simp
qed

lemma binary64_of_int: "\<bar>n\<bar> < 2 ^ 53 \<Longrightarrow> binary64 (of_int n) = of_int n"
proof -
  assume bound: "\<bar>n\<bar> < 2 ^ 53"
  consider "n = 0" | "0 < n" | "n < 0" by linarith
  then show ?thesis
  proof cases
    case 1
    then show ?thesis by (simp add: binary64_def)
  next
    case 2
    with bound show ?thesis using binary64_positive_int(1) [of n] by simp
  next
    case 3
    with bound show ?thesis using binary64_positive_int(2) [of "- n"] by simp
  qed
qed

lemma binary64_examples:
  "binary64 (1 / 10) = 3602879701896397 / 36028797018963968"
  "binary64 (2 / 10) = 3602879701896397 / 18014398509481984"
  "binary64 (1 / 3) = 6004799503160661 / 18014398509481984"
  "binary64 (3 * binary64 (2 / 10)) = 5404319552844596 / 9007199254740992"
  "binary64 (binary64 (1 / 10) + binary64 (2 / 10)) = 5404319552844596 / 18014398509481984"
  by code_simp+

subsection \<open>binary64 rounds with a relative error of at most \<open>2 ^ (- 53)\<close>\<close>

lemma pow2_powi: "pow2 e = 2 powi e"
proof (cases "0 \<le> e")
  case True
  then show ?thesis unfolding pow2_def power_int_def by simp
next
  case False
  then have "pow2 e = 1 / 2 ^ nat (- e)" unfolding pow2_def by simp
  also have "\<dots> = inverse ((2::rat) ^ nat (- e))" by (simp only: inverse_eq_divide)
  also have "\<dots> = (2::rat) powi e" using False unfolding power_int_def
    by (simp only: power_inverse if_False)
  finally show ?thesis .
qed

lemma div2_bounds: "2 * ((n::int) div 2) \<le> n \<and> n < 2 * (n div 2) + 2"
  by presburger

lemma bits_zero: "bits 0 = 0" by (simp add: bits.simps [of 0])

lemma bits_one: "bits 1 = 1" by (simp add: bits.simps [of 1] bits_zero)

lemma bits_step: "0 < n \<Longrightarrow> bits n = bits (n div 2) + 1"
  by (simp add: bits.simps [of n])

lemma bits_bounds:
  "0 < n \<Longrightarrow> 1 \<le> bits n \<and> 2 ^ nat (bits n - 1) \<le> n \<and> n < 2 ^ nat (bits n)"
proof (induction n rule: bits.induct)
  case (1 n)
  show ?case
  proof (cases "n = 1")
    case True
    then show ?thesis by (simp add: bits_one)
  next
    case False
    with 1(2) have half: "0 < n div 2" by presburger
    define b where "b = bits (n div 2)"
    have "\<not> n \<le> 0" using 1(2) by simp
    from 1(1) [OF this half]
    have ih: "1 \<le> b" "2 ^ nat (b - 1) \<le> n div 2" "n div 2 < 2 ^ nat b"
      by (simp_all add: b_def)
    have unfold: "bits n = b + 1" using 1(2) by (simp add: bits_step b_def)
    have suc: "nat b = Suc (nat (b - 1))" using ih(1) by linarith
    have "(2::int) ^ nat b = 2 * 2 ^ nat (b - 1)" by (subst suc) (rule power_Suc)
    also have "\<dots> \<le> 2 * (n div 2)" using ih(2) by linarith
    also have "\<dots> \<le> n" using div2_bounds [of n] by linarith
    finally have lower: "(2::int) ^ nat b \<le> n" .
    have suc': "nat (b + 1) = Suc (nat b)" using ih(1) by linarith
    have "n < 2 * (n div 2) + 2" using div2_bounds [of n] by linarith
    also have "\<dots> \<le> 2 * 2 ^ nat b" using ih(3) by linarith
    also have "\<dots> = 2 ^ nat (b + 1)" by (subst suc') (rule power_Suc [symmetric])
    finally have upper: "n < 2 ^ nat (b + 1)" .
    have "1 \<le> b + 1" using ih(1) by linarith
    moreover have "2 ^ nat (b + 1 - 1) \<le> n" using lower by simp
    ultimately show ?thesis using upper unfolding unfold by blast
  qed
qed

lemma bits_bounds_rat:
  assumes "0 < n"
  shows "2 powi (bits n - 1) \<le> (of_int n :: rat)" "(of_int n :: rat) < 2 powi (bits n)"
proof -
  from bits_bounds [OF assms]
  have b: "1 \<le> bits n" "2 ^ nat (bits n - 1) \<le> n" "n < 2 ^ nat (bits n)" by blast+
  have "(2::rat) powi (bits n - 1) = 2 ^ nat (bits n - 1)"
    using b(1) by (simp add: power_int_def)
  also have "\<dots> = of_int (2 ^ nat (bits n - 1))" by simp
  also have "\<dots> \<le> of_int n" using b(2) by (simp only: of_int_le_iff)
  finally show "2 powi (bits n - 1) \<le> (of_int n :: rat)" .
  have "(of_int n :: rat) < of_int (2 ^ nat (bits n))" using b(3) by (simp only: of_int_less_iff)
  also have "\<dots> = 2 ^ nat (bits n)" by simp
  also have "\<dots> = (2::rat) powi (bits n)" using b(1) by (simp add: power_int_def)
  finally show "(of_int n :: rat) < 2 powi (bits n)" .
qed

lemma two_powi_pos: "0 < (2::rat) powi e"
  by (rule zero_less_power_int) simp

lemma exponent_bounds:
  assumes "0 < x"
  shows "2 powi (exponent x) \<le> x" "x < 2 powi (exponent x + 1)"
proof -
  obtain p q where pq: "quotient_of x = (p, q)" by (cases "quotient_of x") auto
  have q: "0 < q" using pq by (rule quotient_of_denom_pos)
  have x: "x = of_int p / of_int q" using pq by (rule quotient_of_div)
  have p: "0 < p" using assms q unfolding x by (simp add: zero_less_divide_iff)
  define a b where "a = bits p" and "b = bits q"
  note pb = bits_bounds_rat [OF p, folded a_def]
  note qb = bits_bounds_rat [OF q, folded b_def]
  have "x < 2 powi a / 2 powi (b - 1)"
    unfolding x using p pb(2) two_powi_pos qb(1) by (intro frac_less) simp_all
  also have "\<dots> = 2 powi (a - b + 1)"
    using power_int_diff [of "2::rat" a "b - 1"] by (simp add: algebra_simps)
  finally have upper: "x < 2 powi (a - b + 1)" .
  have "2 powi (a - b - 1) = (2::rat) powi (a - 1) / 2 powi b"
    using power_int_diff [of "2::rat" "a - 1" b] by (simp add: algebra_simps)
  also have "\<dots> < x"
    unfolding x using q pb(1) two_powi_pos qb(2) by (intro frac_less2) simp_all
  finally have lower: "2 powi (a - b - 1) < x" .
  have e: "exponent x = (if 2 powi (a - b) \<le> x then a - b else a - b - 1)"
    by (simp add: exponent_def pq a_def b_def pow2_powi)
  show "2 powi (exponent x) \<le> x"
    using lower unfolding e by (cases "2 powi (a - b) \<le> x") simp_all
  show "x < 2 powi (exponent x + 1)"
    using upper unfolding e by (cases "2 powi (a - b) \<le> x") simp_all
qed

lemma roundTiesToEven_error: "\<bar>of_int (roundTiesToEven y) - y\<bar> \<le> 1 / 2"
proof -
  have "of_int \<lfloor>y\<rfloor> \<le> y" "y < of_int \<lfloor>y\<rfloor> + 1" by linarith+
  then show ?thesis
    unfolding roundTiesToEven_def Let_def by (auto simp: abs_le_iff)
qed

lemma binary64_error:
  assumes "2 powi (- 1022) \<le> \<bar>x\<bar>"
  shows "\<bar>binary64 x - x\<bar> \<le> 2 powi (- 53) * \<bar>x\<bar>"
proof -
  have pos: "0 < \<bar>x\<bar>" using assms two_powi_pos [of "- 1022"] by linarith
  then have nz: "x \<noteq> 0" by simp
  define e where "e = exponent \<bar>x\<bar>"
  note eb = exponent_bounds [OF pos, folded e_def]
  have normal: "- 1022 \<le> e"
  proof (rule ccontr)
    assume "\<not> - 1022 \<le> e"
    then have "e + 1 \<le> - 1022" by simp
    then have "(2::rat) powi (e + 1) \<le> 2 powi (- 1022)"
      by (intro power_int_increasing) simp_all
    with assms eb(2) show False by linarith
  qed
  define ulp where "ulp = (2::rat) powi (e - 52)"
  have ulp: "0 < ulp" unfolding ulp_def by (rule two_powi_pos)
  define r where "r = roundTiesToEven (x / ulp)"
  have result: "binary64 x = of_int r * ulp"
    using nz normal by (simp add: binary64_def Let_def e_def [symmetric] pow2_powi ulp_def r_def
        max_def)
  have "\<bar>of_int r * ulp - x\<bar> = \<bar>of_int r - x / ulp\<bar> * ulp"
  proof -
    have "of_int r * ulp - x = (of_int r - x / ulp) * ulp" using ulp by (simp add: field_simps)
    then show ?thesis using ulp by (simp add: abs_mult)
  qed
  also have "\<dots> \<le> 1 / 2 * ulp"
    using roundTiesToEven_error [of "x / ulp"] ulp unfolding r_def
    by (intro mult_right_mono) simp_all
  also have "1 / 2 * ulp = 2 powi (- 53) * 2 powi e"
  proof -
    have "(2::rat) powi (- 53) * 2 powi e = 2 powi (- 53 + e)"
      by (rule power_int_add [symmetric]) simp
    also have "- 53 + e = (e - 52) + (- 1)" by simp
    also have "(2::rat) powi ((e - 52) + (- 1)) = 2 powi (e - 52) * 2 powi (- 1)"
      by (rule power_int_add) simp
    finally show ?thesis by (simp add: ulp_def)
  qed
  also have "\<dots> \<le> 2 powi (- 53) * \<bar>x\<bar>"
    using eb(1) two_powi_pos [of "- 53"] by (intro mult_left_mono) simp_all
  finally show ?thesis unfolding result .
qed

lemma binary64_zero: "binary64 0 = 0"
  by (simp add: binary64_def)

lemma percentage_error:
  fixes c n :: nat
  assumes "c \<le> n" "0 < n" "n < 2 ^ 32"
  defines "x \<equiv> (of_nat c / of_nat n :: rat)"
  defines "u \<equiv> (2::rat) powi (- 53)"
  shows "\<bar>binary64 (binary64 x * 100) - x * 100\<bar> \<le> x * (200 * u + 100 * u * u)"
proof (cases "c = 0")
  case True
  then show ?thesis by (simp add: x_def binary64_zero)
next
  case False
  define tiny where "tiny = (2::rat) powi (- 1022)"
  have u: "0 < u" "u \<le> 1 / 2"
  proof -
    show "0 < u" unfolding u_def by (rule two_powi_pos)
    have "u \<le> 2 powi (- 1)" unfolding u_def by (rule power_int_increasing) simp_all
    then show "u \<le> 1 / 2" by simp
  qed
  have small: "tiny \<le> 1 / 2 ^ 33"
  proof -
    have "tiny \<le> 2 powi (- 33)" unfolding tiny_def by (rule power_int_increasing) simp_all
    also have "\<dots> = 1 / 2 ^ 33" by (simp add: inverse_eq_divide)
    finally show ?thesis .
  qed
  have npos: "(0::rat) < of_nat n" using assms(2) by simp
  have "n \<le> 2 ^ 32" using assms(3) by simp
  then have "(of_nat n :: rat) \<le> of_nat (2 ^ 32)" by (simp only: of_nat_le_iff)
  then have nle: "(of_nat n :: rat) \<le> 2 ^ 32" by simp
  have cpos: "1 \<le> (of_nat c :: rat)" using False by (simp add: Suc_le_eq)
  have "1 / 2 ^ 32 \<le> 1 / (of_nat n :: rat)"
    using npos nle by (intro divide_left_mono) simp_all
  also have "\<dots> \<le> x" unfolding x_def using npos cpos by (intro divide_right_mono) simp_all
  finally have x: "1 / 2 ^ 32 \<le> x" .
  have "(0::rat) < 1 / 2 ^ 32" by simp
  with x have xpos: "0 < x" by linarith
  have x33: "1 / 2 ^ 33 \<le> x / 2" using x by simp
  define q where "q = binary64 x"
  have "tiny \<le> x" using small x33 xpos by linarith
  then have "tiny \<le> \<bar>x\<bar>" using xpos by simp
  then have "\<bar>q - x\<bar> \<le> u * \<bar>x\<bar>"
    unfolding q_def u_def tiny_def by (rule binary64_error)
  then have qx: "\<bar>q - x\<bar> \<le> u * x" using xpos by simp
  have ux: "u * x \<le> x / 2" using u(2) xpos by (simp add: field_simps)
  have q: "x - u * x \<le> q" "q \<le> x + u * x" using qx by (simp_all add: abs_le_iff)
  have half: "x / 2 \<le> q" using q(1) ux by linarith
  have qpos: "0 < q" using half xpos by linarith
  have "tiny \<le> q * 100" using small x33 half qpos by linarith
  then have "tiny \<le> \<bar>q * 100\<bar>" using qpos by simp
  then have "\<bar>binary64 (q * 100) - q * 100\<bar> \<le> u * \<bar>q * 100\<bar>"
    unfolding u_def tiny_def by (rule binary64_error)
  also have "\<bar>q * 100\<bar> = q * 100" using qpos by simp
  also have "u * (q * 100) \<le> u * ((x + u * x) * 100)"
    using q(2) u(1) by (intro mult_left_mono) simp_all
  finally have first: "\<bar>binary64 (q * 100) - q * 100\<bar> \<le> u * ((x + u * x) * 100)" .
  have "binary64 (q * 100) - x * 100 = (binary64 (q * 100) - q * 100) + (q - x) * 100"
    by (simp add: algebra_simps)
  then have "\<bar>binary64 (q * 100) - x * 100\<bar>
        \<le> \<bar>binary64 (q * 100) - q * 100\<bar> + \<bar>(q - x) * 100\<bar>"
    by (simp only: abs_triangle_ineq)
  also have "\<bar>(q - x) * 100\<bar> = \<bar>q - x\<bar> * 100" by (simp only: abs_mult abs_numeral)
  also have "\<bar>binary64 (q * 100) - q * 100\<bar> + \<bar>q - x\<bar> * 100
             \<le> u * ((x + u * x) * 100) + u * x * 100"
  proof (rule add_mono [OF first])
    show "\<bar>q - x\<bar> * 100 \<le> u * x * 100" using qx by (intro mult_right_mono) simp_all
  qed
  also have "\<dots> = x * (200 * u + 100 * u * u)" by (simp add: algebra_simps)
  finally show ?thesis unfolding q_def .
qed

lemma rounding_bound: "200 * (2::rat) powi (- 53) + 100 * 2 powi (- 53) * 2 powi (- 53) \<le> 1 / 10 ^ 13"
proof -
  have "(2::rat) powi (- 53) = 1 / 2 ^ 53" by (simp add: inverse_eq_divide)
  then show ?thesis by simp
qed

lemma five_percentages:
  fixes c1 c2 c3 c4 c5 n :: nat
  assumes total: "c1 + c2 + c3 + c4 + c5 = n" and "0 < n" "n < 2 ^ 32"
  defines "P \<equiv> \<lambda>c. binary64 (binary64 (of_nat c / of_nat n) * 100)"
  shows "\<bar>P c1 + P c2 + P c3 + P c4 + P c5 - 100\<bar> \<le> 1 / 10 ^ 13"
proof -
  define X where "X = (\<lambda>c. of_nat c / of_nat n :: rat)"
  define E where "E = 200 * (2::rat) powi (- 53) + 100 * 2 powi (- 53) * 2 powi (- 53)"
  have err: "\<bar>P c - X c * 100\<bar> \<le> X c * E" if "c \<le> n" for c
    unfolding P_def X_def E_def using that assms(2,3) by (rule percentage_error)
  have le: "c1 \<le> n" "c2 \<le> n" "c3 \<le> n" "c4 \<le> n" "c5 \<le> n"
    using total by simp_all
  have "(of_nat (c1 + c2 + c3 + c4 + c5) :: rat) = of_nat n" using total by simp
  then have "(of_nat c1 + of_nat c2 + of_nat c3 + of_nat c4 + of_nat c5 :: rat) = of_nat n"
    by (simp only: of_nat_add)
  then have one: "X c1 + X c2 + X c3 + X c4 + X c5 = 1"
    using assms(2) by (simp add: X_def add_divide_distrib [symmetric])
  have "P c1 + P c2 + P c3 + P c4 + P c5 - 100
        = (P c1 - X c1 * 100) + (P c2 - X c2 * 100) + (P c3 - X c3 * 100)
          + (P c4 - X c4 * 100) + (P c5 - X c5 * 100)
          + ((X c1 + X c2 + X c3 + X c4 + X c5) * 100 - 100)"
    by (simp add: algebra_simps)
  also have "\<dots> = (P c1 - X c1 * 100) + (P c2 - X c2 * 100) + (P c3 - X c3 * 100)
          + (P c4 - X c4 * 100) + (P c5 - X c5 * 100)"
    by (simp only: one)
  finally have split: "P c1 + P c2 + P c3 + P c4 + P c5 - 100
        = (P c1 - X c1 * 100) + (P c2 - X c2 * 100) + (P c3 - X c3 * 100)
          + (P c4 - X c4 * 100) + (P c5 - X c5 * 100)" .
  have "\<bar>P c1 + P c2 + P c3 + P c4 + P c5 - 100\<bar>
        \<le> \<bar>P c1 - X c1 * 100\<bar> + \<bar>P c2 - X c2 * 100\<bar> + \<bar>P c3 - X c3 * 100\<bar>
          + \<bar>P c4 - X c4 * 100\<bar> + \<bar>P c5 - X c5 * 100\<bar>"
    unfolding split by linarith
  also have "\<dots> \<le> X c1 * E + X c2 * E + X c3 * E + X c4 * E + X c5 * E"
    using err [OF le(1)] err [OF le(2)] err [OF le(3)] err [OF le(4)] err [OF le(5)]
    by linarith
  also have "\<dots> = (X c1 + X c2 + X c3 + X c4 + X c5) * E" by (simp only: distrib_right)
  also have "\<dots> = E" by (simp only: one mult_1)
  also have "E \<le> 1 / 10 ^ 13" unfolding E_def by (rule rounding_bound)
  finally show ?thesis .
qed

subsection \<open>Sums and quotients in binary64\<close>

lemma binary64_near:
  assumes "x = 0 \<or> 1 / 2 ^ 64 \<le> \<bar>x\<bar>"
  shows "\<bar>binary64 x - x\<bar> \<le> \<bar>x\<bar> / 2 ^ 53"
proof (cases "x = 0")
  case True
  then show ?thesis by (simp add: binary64_zero)
next
  case False
  with assms have large: "1 / 2 ^ 64 \<le> \<bar>x\<bar>" by simp
  have "(2::rat) powi (- 1022) \<le> 2 powi (- 64)" by (rule power_int_increasing) simp_all
  also have "\<dots> = 1 / 2 ^ 64" by (simp add: inverse_eq_divide)
  finally have "2 powi (- 1022) \<le> \<bar>x\<bar>" using large by (rule order_trans)
  then have "\<bar>binary64 x - x\<bar> \<le> 2 powi (- 53) * \<bar>x\<bar>" by (rule binary64_error)
  also have "(2::rat) powi (- 53) = 1 / 2 ^ 53" by (simp add: inverse_eq_divide)
  finally show ?thesis by simp
qed

lemma binary64_near_nonneg:
  assumes "x = 0 \<or> 1 / 2 ^ 64 \<le> x"
  shows "x - x / 2 ^ 53 \<le> binary64 x" "binary64 x \<le> x + x / 2 ^ 53"
proof -
  have nonneg: "0 \<le> x" using assms by (rule disjE) (simp, simp add: order_trans [of 0 "1 / 2 ^ 64" x])
  then have "x = 0 \<or> 1 / 2 ^ 64 \<le> \<bar>x\<bar>" using assms by simp
  then have "\<bar>binary64 x - x\<bar> \<le> \<bar>x\<bar> / 2 ^ 53" by (rule binary64_near)
  then have "\<bar>binary64 x - x\<bar> \<le> x / 2 ^ 53" using nonneg by simp
  then show "x - x / 2 ^ 53 \<le> binary64 x" "binary64 x \<le> x + x / 2 ^ 53"
    by linarith+
qed


text \<open>
  A sum of non-negative amounts, each rounded and each partial sum rounded: the error of
  \<open>n\<close> additions is at most \<open>(n + 1) / 2 ^ 52\<close> of the exact sum.
\<close>

lemma sum_list_nonneg_least:
  fixes xs :: "rat list"
  assumes "\<forall>x \<in> set xs. x = 0 \<or> m \<le> x" "0 < m"
  shows "0 \<le> sum_list xs \<and> (sum_list xs = 0 \<or> m \<le> sum_list xs)"
  using assms(1)
proof (induction xs)
  case Nil
  show ?case by simp
next
  case (Cons x xs)
  have x: "x = 0 \<or> m \<le> x" using Cons.prems by simp
  have "\<forall>x \<in> set xs. x = 0 \<or> m \<le> x" using Cons.prems by simp
  then have S: "0 \<le> sum_list xs \<and> (sum_list xs = 0 \<or> m \<le> sum_list xs)"
    by (rule Cons.IH)
  have sum: "sum_list (x # xs) = x + sum_list xs" by simp
  show ?case unfolding sum using x S assms(2) by linarith
qed

lemma foldl_binary64_error:
  fixes xs :: "rat list"
  assumes "\<forall>x \<in> set xs. x = 0 \<or> 1 / 100 \<le> x" and "length xs < 2 ^ 32"
  shows "\<bar>foldl (\<lambda>sum x. binary64 (sum + binary64 x)) 0 xs - sum_list xs\<bar>
         \<le> (of_nat (length xs) + 1) / 2 ^ 52 * sum_list xs"
  using assms
proof (induction xs rule: rev_induct)
  case Nil
  show ?case by simp
next
  case (snoc x xs)
  define s where "s = foldl (\<lambda>sum x. binary64 (sum + binary64 x)) 0 xs"
  define S where "S = sum_list xs"
  define c :: rat where "c = (of_nat (length xs) + 1) / 2 ^ 52"
  define y where "y = binary64 x"
  have elems: "\<forall>x \<in> set xs. x = 0 \<or> 1 / 100 \<le> x" and x: "x = 0 \<or> 1 / 100 \<le> x"
    using snoc.prems(1) by simp_all
  have len: "length xs < 2 ^ 32" using snoc.prems(2) by simp
  have IH: "\<bar>s - S\<bar> \<le> c * S"
    unfolding s_def S_def c_def using elems len by (rule snoc.IH)
  have S: "0 \<le> S" "S = 0 \<or> 1 / 100 \<le> S"
    unfolding S_def using sum_list_nonneg_least [OF elems] by simp_all
  have xpos: "0 \<le> x" using x by linarith
  have "length xs + 1 \<le> 2 ^ 32" using len by simp
  then have "(of_nat (length xs + 1) :: rat) \<le> of_nat (2 ^ 32)" by (simp only: of_nat_le_iff)
  then have "(of_nat (length xs) + 1 :: rat) \<le> 2 ^ 32" by simp
  then have "c \<le> 2 ^ 32 / 2 ^ 52" unfolding c_def by (rule divide_right_mono) simp
  then have c_half: "c \<le> 1 / 2" by simp
  have "(1 :: rat) \<le> of_nat (length xs) + 1" by simp
  then have "(1 :: rat) / 2 ^ 52 \<le> c" unfolding c_def by (rule divide_right_mono) simp
  then have c_low: "1 / 2 ^ 52 \<le> c" .
  have cS: "c * S \<le> 1 / 2 * S" using c_half S(1) by (rule mult_right_mono)
  have "1 / 2 ^ 52 * x \<le> c * x" using c_low xpos by (rule mult_right_mono)
  then have cx: "x / 4503599627370496 \<le> c * x" by simp
  have "x = 0 \<or> 1 / 2 ^ 64 \<le> x" using x by auto
  then have "x - x / 2 ^ 53 \<le> y" "y \<le> x + x / 2 ^ 53"
    unfolding y_def by (rule binary64_near_nonneg)+
  then have y: "x - x / 9007199254740992 \<le> y" "y \<le> x + x / 9007199254740992"
    by simp_all
  have s: "S - c * S \<le> s" "s \<le> S + c * S" using IH by linarith+
  have z: "S / 2 + x / 2 \<le> s + y" using s(1) cS y(1) xpos by linarith
  have "s + y = 0 \<or> 1 / 2 ^ 64 \<le> s + y"
  proof (cases "S + x = 0")
    case True
    then have "S = 0" "x = 0" using S(1) xpos by linarith+
    then have "s = 0" "y = 0" using s y by simp_all
    then show ?thesis by simp
  next
    case False
    then have "1 / 100 \<le> S + x" using S x by linarith
    then have "1 / 200 \<le> s + y" using z by linarith
    then show ?thesis by simp
  qed
  then have "(s + y) - (s + y) / 2 ^ 53 \<le> binary64 (s + y)"
    "binary64 (s + y) \<le> (s + y) + (s + y) / 2 ^ 53"
    by (rule binary64_near_nonneg)+
  then have r: "(s + y) - (s / 9007199254740992 + y / 9007199254740992) \<le> binary64 (s + y)"
    "binary64 (s + y) \<le> (s + y) + (s / 9007199254740992 + y / 9007199254740992)"
    by (simp_all add: add_divide_distrib)
  have target: "(of_nat (length (xs @ [x])) + 1) / 2 ^ 52 * sum_list (xs @ [x])
                = c * S + c * x + (S / 4503599627370496 + x / 4503599627370496)"
    unfolding c_def S_def by (simp add: field_simps)
  have result: "foldl (\<lambda>sum x. binary64 (sum + binary64 x)) 0 (xs @ [x]) = binary64 (s + y)"
    unfolding s_def y_def by simp
  have "\<bar>binary64 (s + y) - (S + x)\<bar>
        \<le> c * S + c * x + (S / 4503599627370496 + x / 4503599627370496)"
    using r s y cS cx S(1) xpos by linarith
  then show ?case unfolding target result by (simp add: S_def)
qed


text \<open>A sum of non-negative integers below \<open>2 ^ 53\<close> has no rounding.\<close>

lemma foldl_binary64_int:
  fixes rs :: "int list"
  assumes "\<forall>r \<in> set rs. 0 \<le> r" and "sum_list rs < 2 ^ 53"
  shows "foldl (\<lambda>sum r. binary64 (sum + of_int r)) 0 rs = of_int (sum_list rs)"
  using assms
proof (induction rs rule: rev_induct)
  case Nil
  show ?case by simp
next
  case (snoc r rs)
  have nonneg: "\<forall>r \<in> set rs. 0 \<le> r" and r: "0 \<le> r" using snoc.prems(1) by simp_all
  have sum: "0 \<le> sum_list rs" using nonneg by (simp add: sum_list_nonneg)
  have total: "sum_list rs + r < 2 ^ 53" using snoc.prems(2) by simp
  then have "sum_list rs < 2 ^ 53" using r by linarith
  with nonneg have IH: "foldl (\<lambda>sum r. binary64 (sum + of_int r)) 0 rs = of_int (sum_list rs)"
    by (rule snoc.IH)
  have "\<bar>sum_list rs + r\<bar> < 2 ^ 53" using total sum r by linarith
  then have "binary64 (of_int (sum_list rs + r)) = of_int (sum_list rs + r)"
    by (rule binary64_of_int)
  then show ?case by (simp add: IH)
qed

text \<open>
  The mean of ratings in 1..5, times 10, rounded to an integer. When the exact product is
  not half-way between two integers it is at least \<open>1 / (2 * n)\<close> away from half-way, which
  is more than the rounding errors for \<open>n < 2 ^ 32\<close>; the forty half-way cases are
  evaluated.
\<close>

lemma half_cases_1:
  "list_all (\<lambda>i. Math_round (binary64 (binary64 (of_int (2 * i + 1) / 20) * 10)) = i + 1)
     (map int [10..<20])"
  by code_simp

lemma half_cases_2:
  "list_all (\<lambda>i. Math_round (binary64 (binary64 (of_int (2 * i + 1) / 20) * 10)) = i + 1)
     (map int [20..<30])"
  by code_simp

lemma half_cases_3:
  "list_all (\<lambda>i. Math_round (binary64 (binary64 (of_int (2 * i + 1) / 20) * 10)) = i + 1)
     (map int [30..<40])"
  by code_simp

lemma half_cases_4:
  "list_all (\<lambda>i. Math_round (binary64 (binary64 (of_int (2 * i + 1) / 20) * 10)) = i + 1)
     (map int [40..<50])"
  by code_simp

lemma half_cases:
  fixes i :: int
  assumes "10 \<le> i" "i < 50"
  shows "Math_round (binary64 (binary64 (of_int (2 * i + 1) / 20) * 10)) = i + 1"
proof -
  define k where "k = nat i"
  have i: "i = int k" and k: "10 \<le> k" "k < 50" using assms by (simp_all add: k_def)
  consider "k < 20" | "20 \<le> k" "k < 30" | "30 \<le> k" "k < 40" | "40 \<le> k" using k by linarith
  then have "k \<in> {10..<20} \<or> k \<in> {20..<30} \<or> k \<in> {30..<40} \<or> k \<in> {40..<50}"
    using k by cases simp_all
  then have "int k \<in> int ` {10..<20} \<or> int k \<in> int ` {20..<30}
             \<or> int k \<in> int ` {30..<40} \<or> int k \<in> int ` {40..<50}"
    by blast
  then have "int k \<in> set (map int [10..<20]) \<or> int k \<in> set (map int [20..<30])
             \<or> int k \<in> set (map int [30..<40]) \<or> int k \<in> set (map int [40..<50])"
    by (simp only: set_map set_upt)
  then show ?thesis
    unfolding i
    using half_cases_1 half_cases_2 half_cases_3 half_cases_4
    unfolding list_all_iff by blast
qed

lemma mean_round:
  fixes S n :: int
  assumes "0 < n" "n < 2 ^ 32" "n \<le> S" "S \<le> 5 * n"
  shows "Math_round (binary64 (binary64 (of_int S / of_int n) * 10))
         = round_half_away_from_zero (of_int S / of_int n * 10)"
proof -
  define x :: rat where "x = of_int S / of_int n"
  define q where "q = binary64 x"
  define p where "p = binary64 (q * 10)"
  define M where "M = 20 * S + n"
  define D where "D = 2 * n"
  define j where "j = M div D"
  have npos: "(0::rat) < of_int n" using assms(1) by simp
  have "(of_int n :: rat) \<le> of_int S" "(of_int S :: rat) \<le> of_int (5 * n)"
    using assms(3,4) by (simp_all only: of_int_le_iff)
  then have x: "1 \<le> x" "x \<le> 5"
    unfolding x_def using npos by (simp_all add: le_divide_eq divide_le_eq)
  have "x = 0 \<or> 1 / 2 ^ 64 \<le> x" using x(1) by (simp add: order_trans [of _ 1 x])
  then have "x - x / 2 ^ 53 \<le> q" "q \<le> x + x / 2 ^ 53"
    unfolding q_def by (rule binary64_near_nonneg)+
  then have q: "x - x / 9007199254740992 \<le> q" "q \<le> x + x / 9007199254740992"
    by simp_all
  have "1 / 2 \<le> q * 10" using q(1) x(1) by linarith
  then have "q * 10 = 0 \<or> 1 / 2 ^ 64 \<le> q * 10" by (simp add: order_trans [of _ "1 / 2" "q * 10"])
  then have "q * 10 - q * 10 / 2 ^ 53 \<le> p" "p \<le> q * 10 + q * 10 / 2 ^ 53"
    unfolding p_def by (rule binary64_near_nonneg)+
  then have p: "q * 10 - q * 10 / 9007199254740992 \<le> p"
    "p \<le> q * 10 + q * 10 / 9007199254740992"
    by simp_all
  have close: "x * 10 - 101 / 9007199254740992 \<le> p" "p \<le> x * 10 + 101 / 9007199254740992"
    using p q x by linarith+
  have t: "x * 10 + 1 / 2 = of_int M / of_int D"
    unfolding x_def M_def D_def using npos by (simp add: field_simps)
  have floor: "\<lfloor>x * 10 + 1 / 2\<rfloor> = j"
    unfolding t j_def by (rule floor_divide_of_int_eq)
  have "0 \<le> x * 10" using x(1) by linarith
  then have rhs: "round_half_away_from_zero (x * 10) = j"
    by (simp add: round_half_away_from_zero_def floor)
  have Dpos: "0 < D" and Dle: "D \<le> 2 ^ 33" using assms(1,2) by (simp_all add: D_def)
  have "Math_round p = j"
  proof (cases "M mod D = 0")
    case True
    then have "D dvd M" by (simp only: mod_eq_0_iff_dvd)
    then have "D * (M div D) = M" by (rule dvd_mult_div_cancel)
    then have "M = D * j" unfolding j_def by (rule sym)
    then have eq: "20 * S = n * (2 * j - 1)" unfolding M_def D_def by (simp add: algebra_simps)
    then have "(of_int (20 * S) :: rat) = of_int (n * (2 * j - 1))" by (simp only:)
    then have xj: "x = of_int (2 * (j - 1) + 1) / 20"
      unfolding x_def using npos by (simp add: field_simps)
    have "20 * n \<le> n * (2 * j - 1)" "n * (2 * j - 1) \<le> 100 * n"
      using assms(3,4) eq by linarith+
    then have "20 \<le> 2 * j - 1" "2 * j - 1 \<le> 100"
      using assms(1) by (simp_all add: mult.commute [of n])
    then have "10 \<le> j - 1" "j - 1 < 50" by linarith+
    then have "Math_round (binary64 (binary64 (of_int (2 * (j - 1) + 1) / 20) * 10)) = (j - 1) + 1"
      by (rule half_cases)
    then show ?thesis unfolding p_def q_def xj by simp
  next
    case False
    define r where "r = M mod D"
    have r: "1 \<le> r" "r \<le> D - 1"
      using False Dpos pos_mod_sign [of D M] pos_mod_bound [of D M] unfolding r_def by linarith+
    have "M = D * j + r" unfolding j_def r_def by simp
    then have "(of_int M :: rat) = of_int D * of_int j + of_int r" by simp
    then have split: "(of_int M :: rat) / of_int D = of_int j + of_int r / of_int D"
      using Dpos by (simp add: field_simps)
    have Drat: "(0::rat) < of_int D" "(of_int D :: rat) \<le> 2 ^ 33"
    proof -
      show "(0::rat) < of_int D" using Dpos by simp
      have "(of_int D :: rat) \<le> of_int (2 ^ 33)" using Dle by (simp only: of_int_le_iff)
      then show "(of_int D :: rat) \<le> 2 ^ 33" by simp
    qed
    have "(1::rat) / 2 ^ 33 \<le> 1 / of_int D"
      using Drat by (intro divide_left_mono) simp_all
    then have inv: "(1::rat) / 8589934592 \<le> 1 / of_int D" by simp
    have "(1::rat) \<le> of_int r" "(of_int r :: rat) \<le> of_int D - 1"
      using r by (simp_all only: of_int_le_iff [symmetric, where ?'a = rat] of_int_1 of_int_diff)
    then have "(1::rat) / of_int D \<le> of_int r / of_int D"
      "(of_int r :: rat) / of_int D \<le> (of_int D - 1) / of_int D"
      using Drat(1) by (simp_all add: divide_right_mono)
    moreover have "((of_int D :: rat) - 1) / of_int D = 1 - 1 / of_int D"
      using Drat(1) by (simp add: field_simps)
    ultimately have frac: "(1::rat) / 8589934592 \<le> of_int r / of_int D"
      "(of_int r :: rat) / of_int D \<le> 1 - 1 / 8589934592"
      using inv by linarith+
    have mid: "x * 10 + 1 / 2 = of_int j + of_int r / of_int D" unfolding t split ..
    have "of_int j \<le> p + 1 / 2" "p + 1 / 2 < of_int j + 1"
      using close frac mid by linarith+
    then have "\<lfloor>p + 1 / 2\<rfloor> = j" by (intro floor_unique) simp_all
    then show ?thesis by (simp add: Math_round_def)
  qed
  then have "Math_round p = round_half_away_from_zero (x * 10)" by (simp only: rhs)
  then show ?thesis unfolding p_def q_def x_def .
qed

subsection \<open>Decimal amounts as numbers\<close>

lemma Number_text_decimalText: "Number_text (decimalText d) = Some (binary64 (decimalValue d))"
  by (simp add: Number_text_def Number_string_decimalText)

lemma decimalValue_least: "0 \<le> decimalValue d \<Longrightarrow> decimalValue d = 0 \<or> 1 / 100 \<le> decimalValue d"
proof (cases d)
  case (Hundredths n)
  assume "0 \<le> decimalValue d"
  then have "0 \<le> n" unfolding Hundredths by simp
  then have "n = 0 \<or> 1 \<le> n" by linarith
  then have "n = 0 \<or> (1::rat) \<le> of_int n" by (simp only: of_int_1_le_iff)
  then show ?thesis unfolding Hundredths by auto
qed

lemma decimalValue_abs_least: "decimalValue d = 0 \<or> 1 / 100 \<le> \<bar>decimalValue d\<bar>"
proof (cases d)
  case (Hundredths n)
  have "n = 0 \<or> 1 \<le> \<bar>n\<bar>" by linarith
  then have "n = 0 \<or> (1::rat) \<le> \<bar>of_int n\<bar>"
    by (simp only: of_int_abs [symmetric] of_int_1_le_iff)
  then show ?thesis unfolding Hundredths by auto
qed

lemma binary64_decimal_near:
  "\<bar>binary64 (decimalValue d) - decimalValue d\<bar> \<le> \<bar>decimalValue d\<bar> / 2 ^ 53"
proof -
  have "decimalValue d = 0 \<or> 1 / 2 ^ 64 \<le> \<bar>decimalValue d\<bar>"
    using decimalValue_abs_least [of d] by (auto intro: order_trans [of _ "1 / 100"])
  then show ?thesis by (rule binary64_near)
qed

lemma binary64_decimal_positive: "0 < binary64 (decimalValue d) \<longleftrightarrow> 0 < decimalValue d"
proof -
  have "\<bar>binary64 (decimalValue d) - decimalValue d\<bar> \<le> \<bar>decimalValue d\<bar> / 9007199254740992"
    using binary64_decimal_near [of d] by simp
  then show ?thesis by linarith
qed

text \<open>
  Two amounts of a decimal column (of magnitude below \<open>10 ^ 8\<close>, at least 0.01 apart when
  they differ) are ordered as the numbers that \<^verbatim>\<open>Number\<close> makes of their texts.
\<close>

lemma binary64_decimal_order:
  assumes "\<bar>decimalValue x\<bar> < 10 ^ 8" "\<bar>decimalValue y\<bar> < 10 ^ 8"
  shows "(binary64 (decimalValue x) \<le> binary64 (decimalValue y)) = (decimalValue x \<le> decimalValue y)"
proof -
  have "\<bar>binary64 (decimalValue x) - decimalValue x\<bar> \<le> \<bar>decimalValue x\<bar> / 9007199254740992"
    "\<bar>binary64 (decimalValue y) - decimalValue y\<bar> \<le> \<bar>decimalValue y\<bar> / 9007199254740992"
    using binary64_decimal_near [of x] binary64_decimal_near [of y] by simp_all
  moreover have "\<bar>decimalValue x\<bar> < 100000000" "\<bar>decimalValue y\<bar> < 100000000"
    using assms by simp_all
  ultimately have near: "\<bar>binary64 (decimalValue x) - decimalValue x\<bar> \<le> 1 / 1000"
    "\<bar>binary64 (decimalValue y) - decimalValue y\<bar> \<le> 1 / 1000"
    by linarith+
  have "decimalValue x = decimalValue y \<or> decimalValue x + 1 / 100 \<le> decimalValue y
        \<or> decimalValue y + 1 / 100 \<le> decimalValue x"
  proof (cases x)
    case x: (Hundredths m)
    show ?thesis
    proof (cases y)
      case y: (Hundredths n)
      have "m = n \<or> m + 1 \<le> n \<or> n + 1 \<le> m" by linarith
      then have "m = n \<or> (of_int (m + 1) :: rat) \<le> of_int n \<or> (of_int (n + 1) :: rat) \<le> of_int m"
        by (simp only: of_int_le_iff)
      then show ?thesis unfolding x y by auto
    qed
  qed
  then show ?thesis
  proof (elim disjE)
    assume "decimalValue x = decimalValue y"
    then show ?thesis by simp
  next
    assume "decimalValue x + 1 / 100 \<le> decimalValue y"
    then show ?thesis using near by linarith
  next
    assume "decimalValue y + 1 / 100 \<le> decimalValue x"
    then show ?thesis using near by linarith
  qed
qed

subsection \<open>The statistics of the dashboard, field by field\<close>

lemma reduce_plus64:
  "reduce (\<lambda>sum x. plus64 sum (Some (f x))) (Some a) xs
   = Some (foldl (\<lambda>sum x. binary64 (sum + f x)) a xs)"
  unfolding reduce_def by (induction xs arbitrary: a) simp_all

lemma todaySales_stats:
  "todaySales (fst (getDashboardStats now t d))
   = Some (foldl (\<lambda>sum x. binary64 (sum + binary64 x)) 0
        (map (\<lambda>x. decimalValue (totalAmount x))
           (filter (\<lambda>x. order.truckId x = t \<and> status x = ''completed'') (orders d))))"
  by (simp add: getDashboardStats_def select_def Let_def Number_text_decimalText reduce_plus64
      foldl_map)

lemma ordersToday_stats:
  "ordersToday (fst (getDashboardStats now t d))
   = length (filter (\<lambda>x. order.truckId x = t \<and> status x = ''completed'') (orders d))"
  by (simp add: getDashboardStats_def select_def Let_def)

lemma activeLocations_stats:
  "activeLocations (fst (getDashboardStats now t d))
   = length (filter (\<lambda>x. location.truckId x = t \<and> isActive x = Some True) (locations d))"
  by (simp add: getDashboardStats_def select_def Let_def)

text \<open>
  The sum of ratings in 1..5 is exact, and so the mean is the rounding of the exact mean;
  the rounding of the dashboard then agrees with round-half-away-from-zero on the exact
  mean (\<open>mean_round\<close>).
\<close>

lemma sum_list_ratings:
  assumes "\<forall>r \<in> set rs. 1 \<le> f r \<and> f r \<le> (5::int)"
  shows "int (length rs) \<le> sum_list (map f rs) \<and> sum_list (map f rs) \<le> 5 * int (length rs)"
  using assms by (induction rs) auto

lemma foldl_ratings:
  assumes "\<forall>r \<in> set rs. 1 \<le> review.rating r \<and> review.rating r \<le> 5" and "length rs < 2 ^ 32"
  shows "foldl (\<lambda>sum r. binary64 (sum + of_int (review.rating r))) 0 rs
         = of_int (sum_list (map review.rating rs))"
proof -
  have "\<forall>r \<in> set (map review.rating rs). 0 \<le> r" using assms(1) by auto
  moreover have "sum_list (map review.rating rs) < 2 ^ 53"
    using sum_list_ratings [OF assms(1)] assms(2) by simp
  ultimately have "foldl (\<lambda>sum r. binary64 (sum + of_int r)) 0 (map review.rating rs)
                   = of_int (sum_list (map review.rating rs))"
    by (rule foldl_binary64_int)
  then show ?thesis by (simp add: foldl_map)
qed

lemma averageRating_page:
  assumes "\<forall>r \<in> set rs. 1 \<le> review.rating r \<and> review.rating r \<le> 5" and "length rs < 2 ^ 32"
  shows "averageRating_reviewsPage rs
         = Some (if rs = [] then 0
                 else binary64 (of_int (sum_list (map review.rating rs)) / of_nat (length rs)))"
  by (simp add: averageRating_reviewsPage_def reduce_plus64 foldl_ratings [OF assms])

lemma averageRating_none:
  "filter (\<lambda>r. review.truckId r = t) (reviews d) = []
   \<Longrightarrow> averageRating (fst (getDashboardStats now t d)) = Some 0"
  by (simp add: getDashboardStats_def select_def Let_def Math_round64_def binary64_zero
      Math_round_def floor_eval)

lemma averageRating_some:
  assumes "rs = filter (\<lambda>r. review.truckId r = t) (reviews d)" and "rs \<noteq> []"
    and "\<forall>r \<in> set rs. 1 \<le> review.rating r \<and> review.rating r \<le> 5" and "length rs < 2 ^ 32"
  shows "averageRating (fst (getDashboardStats now t d))
         = Some (binary64 (round1_spec (of_int (sum_list (map review.rating rs))
                                        / of_nat (length rs))))"
proof -
  define S where "S = sum_list (map review.rating rs)"
  define n where "n = int (length rs)"
  have n: "0 < n" "n < 2 ^ 32" using assms(2,4) by (simp_all add: n_def)
  have S: "n \<le> S" "S \<le> 5 * n" using sum_list_ratings [OF assms(3)] by (simp_all add: S_def n_def)
  have round: "Math_round (binary64 (binary64 (of_int S / of_int n) * 10))
               = round_half_away_from_zero (of_int S / of_int n * 10)"
    using n S by (rule mean_round)
  have len: "(of_nat (length rs) :: rat) = of_int n" by (simp add: n_def)
  have "averageRating (fst (getDashboardStats now t d))
        = Some (binary64 (of_int (Math_round (binary64 (binary64 (of_int S / of_int n) * 10))) / 10))"
    using assms(2) n(1)
    by (simp add: getDashboardStats_def select_def Let_def Math_round64_def reduce_plus64
        assms(1) [symmetric] foldl_ratings [OF assms(3,4)] S_def [symmetric] len)
  then have "averageRating (fst (getDashboardStats now t d))
        = Some (binary64 (of_int (round_half_away_from_zero (of_int S / of_int n * 10)) / 10))"
    by (simp only: round)
  then show ?thesis unfolding round1_spec_def S_def len .
qed

text \<open>The rounding in the specification's words, computed on the number of the pages.\<close>

lemma round1_spec64_mean:
  fixes S n :: int
  assumes "0 < n" "n < 2 ^ 32" "n \<le> S" "S \<le> 5 * n"
  shows "round1_spec64 (Some (binary64 (of_int S / of_int n)))
         = Some (binary64 (round1_spec (of_int S / of_int n)))"
proof -
  define x :: rat where "x = of_int S / of_int n"
  define q where "q = binary64 x"
  define p where "p = binary64 (q * 10)"
  have npos: "(0::rat) < of_int n" using assms(1) by simp
  have "(of_int n :: rat) \<le> of_int S" using assms(3) by (simp only: of_int_le_iff)
  then have x: "1 \<le> x" unfolding x_def using npos by (simp add: le_divide_eq)
  have "x = 0 \<or> 1 / 2 ^ 64 \<le> x" using x by (simp add: order_trans [of _ 1 x])
  then have "x - x / 2 ^ 53 \<le> q" unfolding q_def by (rule binary64_near_nonneg)
  then have q: "x - x / 9007199254740992 \<le> q" by simp
  have "1 / 2 \<le> q * 10" using q x by linarith
  then have large: "q * 10 = 0 \<or> 1 / 2 ^ 64 \<le> q * 10" and pos: "0 \<le> q * 10"
    by (simp_all add: order_trans [of _ "1 / 2" "q * 10"])
  from large have "q * 10 - q * 10 / 2 ^ 53 \<le> p" unfolding p_def by (rule binary64_near_nonneg)
  then have "q * 10 - q * 10 / 9007199254740992 \<le> p" by simp
  then have "0 \<le> p" using pos by linarith
  then have "round_half_away_from_zero p = Math_round p" by (rule round_half_away_nonneg)
  also have "\<dots> = round_half_away_from_zero (x * 10)"
    unfolding p_def q_def x_def using assms by (rule mean_round)
  finally show ?thesis
    by (simp add: round1_spec64_def round1_spec_def p_def q_def x_def)
qed

lemma round1_spec64_zero: "round1_spec64 (Some 0) = Some 0"
  by (simp add: round1_spec64_def binary64_zero round_half_away_from_zero_def floor_eval)

text \<open>The average rating of the dashboard does not depend on the order of the reviews.\<close>

lemma averageRating_mset:
  assumes same: "mset (filter (\<lambda>r. review.truckId r = t) (reviews d)) = mset rs"
    and range: "\<forall>r \<in> set rs. 1 \<le> review.rating r \<and> review.rating r \<le> 5"
    and size: "length rs < 2 ^ 32"
  shows "averageRating (fst (getDashboardStats now t d))
         = Some (if rs = [] then 0
                 else binary64 (round1_spec (of_int (sum_list (map review.rating rs))
                                             / of_nat (length rs))))"
proof -
  define rs' where "rs' = filter (\<lambda>r. review.truckId r = t) (reviews d)"
  have same': "mset rs' = mset rs" using same by (simp add: rs'_def)
  have set: "set rs' = set rs" using same' by (rule mset_eq_setD)
  have len: "length rs' = length rs" using same' by (rule mset_eq_length)
  have "mset (map review.rating rs') = mset (map review.rating rs)" using same' by simp
  then have "sum_mset (mset (map review.rating rs')) = sum_mset (mset (map review.rating rs))"
    by (simp only:)
  then have sum: "sum_list (map review.rating rs') = sum_list (map review.rating rs)"
    by (simp only: sum_mset_sum_list)
  have empty: "rs' = [] \<longleftrightarrow> rs = []" using len by auto
  show ?thesis
  proof (cases "rs = []")
    case True
    then have "rs' = []" using empty by simp
    then have "averageRating (fst (getDashboardStats now t d)) = Some 0"
      unfolding rs'_def by (rule averageRating_none)
    then show ?thesis using True by simp
  next
    case False
    then have "rs' \<noteq> []" using empty by simp
    moreover have "\<forall>r \<in> set rs'. 1 \<le> review.rating r \<and> review.rating r \<le> 5"
      using range set by simp
    moreover have "length rs' < 2 ^ 32" using size len by simp
    ultimately have "averageRating (fst (getDashboardStats now t d))
         = Some (binary64 (round1_spec (of_int (sum_list (map review.rating rs'))
                                        / of_nat (length rs'))))"
      using rs'_def by (intro averageRating_some)
    then show ?thesis using False by (simp add: sum len)
  qed
qed

subsection \<open>C1: sales, order count and active locations\<close>

text \<open>
  C1, as stated, at two completed orders of 0.10 and 0.20: the sum of the two amounts is
  0.30, and todaySales is \<^verbatim>\<open>0 + 0.1 + 0.2\<close>, the number 0.30000000000000004 (exactly
  5404319552844596 / 2^54): neither 0.1 nor 0.2 is a binary64 value, and the sum of their
  roundings is rounded again. It is neither 0.30 nor the number nearest to 0.30, which
  JavaScript writes \<^verbatim>\<open>0.3\<close>.
\<close>

theorem today_sales_sum_counterexample:
  "map (\<lambda>x. decimalText (totalAmount x))
     (filter (\<lambda>x. order.truckId x = 1 \<and> status x = ''completed'') (orders dimesDb))
     = [''0.10'', ''0.20'']
   \<and> sum_list (map (\<lambda>x. decimalValue (totalAmount x))
         (filter (\<lambda>x. order.truckId x = 1 \<and> status x = ''completed'') (orders dimesDb)))
     = 3 / 10
   \<and> todaySales (fst (getDashboardStats 0 1 dimesDb))
     = Some (5404319552844596 / 18014398509481984)
   \<and> (3 / 10 :: rat) < 5404319552844596 / 18014398509481984
   \<and> binary64 (3 / 10) < 5404319552844596 / 18014398509481984"
  by code_simp

text \<open>
  C1, amended. ordersToday is the number of the truck's orders whose status is "completed",
  and activeLocations is the number of the truck's locations whose isActive is true.
  todaySales is the sum of totalAmount over exactly those orders as JavaScript adds them:
  from 0, in the order of the rows, each amount and each partial sum rounded to the nearest
  binary64 value. For amounts that are not negative (below \<open>10 ^ 8\<close>, as the column holds
  them) and fewer than \<open>2 ^ 32\<close> orders, it differs from the exact sum by at most
  \<open>(n + 1) / 2 ^ 52\<close> of the exact sum, \<open>n\<close> the number of those orders. No calendar-day
  filter is applied: the statistics are the same at every clock time and whatever the
  orders' createdAt are.
\<close>

theorem dashboard_sales_orders_locations:
  "(let completed = filter (\<lambda>x. order.truckId x = t \<and> status x = ''completed'') (orders d);
        amounts = map (\<lambda>x. decimalValue (totalAmount x)) completed;
        sales = foldl (\<lambda>sum x. binary64 (sum + binary64 x)) 0 amounts;
        stats = fst (getDashboardStats now t d);
        restamped = d\<lparr>orders := map (\<lambda>x. x\<lparr>order.createdAt := stamp x\<rparr>) (orders d)\<rparr>
    in todaySales stats = Some sales
     \<and> ((\<forall>x \<in> set amounts. 0 \<le> x \<and> x < 10 ^ 8) \<and> length amounts < 2 ^ 32 \<longrightarrow>
          \<bar>sales - sum_list amounts\<bar>
          \<le> (of_nat (length amounts) + 1) / 2 ^ 52 * sum_list amounts)
     \<and> ordersToday stats = length completed
     \<and> activeLocations stats =
         length (filter (\<lambda>l. location.truckId l = t \<and> isActive l = Some True) (locations d))
     \<and> fst (getDashboardStats now' t restamped) = stats)"
proof -
  define completed where
    "completed = filter (\<lambda>x. order.truckId x = t \<and> status x = ''completed'') (orders d)"
  define amounts where "amounts = map (\<lambda>x. decimalValue (totalAmount x)) completed"
  have same: "filter (\<lambda>x. order.truckId x = t \<and> status x = ''completed'')
                (map (\<lambda>x. x\<lparr>order.createdAt := stamp x\<rparr>) xs)
              = map (\<lambda>x. x\<lparr>order.createdAt := stamp x\<rparr>)
                  (filter (\<lambda>x. order.truckId x = t \<and> status x = ''completed'') xs)" for xs
    by (induction xs) simp_all
  have restamped: "fst (getDashboardStats now' t
                     (d\<lparr>orders := map (\<lambda>x. x\<lparr>order.createdAt := stamp x\<rparr>) (orders d)\<rparr>))
                   = fst (getDashboardStats now t d)"
    by (simp add: getDashboardStats_def select_def Let_def same reduce_def foldl_map)
  have bound: "\<bar>foldl (\<lambda>sum x. binary64 (sum + binary64 x)) 0 amounts - sum_list amounts\<bar>
               \<le> (of_nat (length amounts) + 1) / 2 ^ 52 * sum_list amounts"
    if range: "\<forall>x \<in> set amounts. 0 \<le> x \<and> x < 10 ^ 8" and size: "length amounts < 2 ^ 32"
  proof -
    have "\<forall>x \<in> set amounts. x = 0 \<or> 1 / 100 \<le> x"
    proof
      fix x
      assume "x \<in> set amounts"
      then have "0 \<le> x" and "\<exists>d. x = decimalValue d"
        using range unfolding amounts_def by auto
      then show "x = 0 \<or> 1 / 100 \<le> x" using decimalValue_least by blast
    qed
    then show ?thesis using size by (rule foldl_binary64_error)
  qed
  show ?thesis
    using bound restamped
    by (simp add: Let_def todaySales_stats ordersToday_stats activeLocations_stats
        completed_def amounts_def)
qed

text \<open>
  A completed order of 12.50 and a pending one of 9.00 give todaySales 12.50 and
  ordersToday 1; one of the truck's three locations is active.
\<close>

theorem dashboard_sales_orders_locations_witness:
  "map (\<lambda>x. decimalValue (totalAmount x))
     (filter (\<lambda>x. order.truckId x = 1 \<and> status x = ''completed'') (orders exampleDb)) = [25 / 2]
   \<and> todaySales (fst (getDashboardStats 0 1 exampleDb)) = Some (25 / 2)
   \<and> \<bar>(25 / 2 :: rat) - sum_list [25 / 2]\<bar>
       \<le> (of_nat (length [25 / 2 :: rat]) + 1) / 2 ^ 52 * sum_list [25 / 2]
   \<and> ordersToday (fst (getDashboardStats 0 1 exampleDb)) = 1
   \<and> activeLocations (fst (getDashboardStats 0 1 exampleDb)) = 1"
proof -
  have amounts: "map (\<lambda>x. decimalValue (totalAmount x))
     (filter (\<lambda>x. order.truckId x = 1 \<and> status x = ''completed'') (orders exampleDb)) = [25 / 2]"
    by (simp add: exampleDb_def order_of_def)
  have sales: "foldl (\<lambda>sum x. binary64 (sum + binary64 x)) 0 [25 / 2 :: rat] = 25 / 2"
    by code_simp
  have range: "(\<forall>x \<in> set [25 / 2 :: rat]. 0 \<le> x \<and> x < 10 ^ 8) \<and> length [25 / 2 :: rat] < 2 ^ 32"
    by simp
  have completed: "length (filter (\<lambda>x. order.truckId x = 1 \<and> status x = ''completed'')
                     (orders exampleDb)) = 1"
    by (simp add: exampleDb_def order_of_def)
  have active: "length (filter (\<lambda>l. location.truckId l = 1 \<and> isActive l = Some True)
                  (locations exampleDb)) = 1"
    by (simp add: exampleDb_def location_of_def)
  show ?thesis
    using dashboard_sales_orders_locations
      [where t = 1 and d = exampleDb and now = 0 and now' = 0 and stamp = "order.createdAt",
        unfolded Let_def amounts sales completed active]
      range amounts
    by blast
qed

subsection \<open>C2: the average rating\<close>

text \<open>
  C2. averageRating is 0 when the truck has no review. When it has reviews, with ratings
  in 1..5 as the data model holds them (and fewer than \<open>2 ^ 32\<close> of them, the bound on the
  length of an array), averageRating is the mean of the ratings rounded to one decimal
  place by round-half-away-from-zero on \<open>value * 10\<close>, divided back by 10: the number that
  the division by 10 returns, which is the binary64 value nearest to that decimal. The
  ratings 5, 4, 5 give 4.7, the number that JavaScript writes \<^verbatim>\<open>4.7\<close>.
\<close>

theorem dashboard_average_rating:
  "(let rs = filter (\<lambda>r. review.truckId r = t) (reviews d);
        mean = of_int (sum_list (map review.rating rs)) / of_nat (length rs);
        avg = averageRating (fst (getDashboardStats now t d))
    in (rs = [] \<longrightarrow> avg = Some 0)
     \<and> (rs \<noteq> [] \<and> (\<forall>r \<in> set rs. 1 \<le> review.rating r \<and> review.rating r \<le> 5)
         \<and> length rs < 2 ^ 32
         \<longrightarrow> avg = Some (binary64 (round1_spec mean))))"
  using averageRating_none [of t d now] averageRating_some [OF refl, of t d now]
  by (simp add: Let_def)

text \<open>The ratings 5, 4, 5 give 4.7; no review gives 0.\<close>

theorem dashboard_average_rating_witness:
  "map review.rating (filter (\<lambda>r. review.truckId r = 1) (reviews exampleDb)) = [5, 4, 5]
   \<and> averageRating (fst (getDashboardStats 0 1 exampleDb)) = Some (binary64 (47 / 10))
   \<and> round1_spec (14 / 3) = 47 / 10
   \<and> binary64 (47 / 10) = 5291729562160333 / 1125899906842624
   \<and> filter (\<lambda>r. review.truckId r = 1) (reviews emptyDb) = []
   \<and> averageRating (fst (getDashboardStats 0 1 emptyDb)) = Some 0"
proof -
  have rs: "filter (\<lambda>r. review.truckId r = 1) (reviews exampleDb)
            = [review_of 1 1 5, review_of 3 1 4, review_of 4 1 5]"
    by (simp add: exampleDb_def review_of_def)
  have ratings: "map review.rating [review_of 1 1 5, review_of 3 1 4, review_of 4 1 5] = [5, 4, 5]"
    by (simp add: review_of_def)
  have range: "[review_of 1 1 5, review_of 3 1 4, review_of 4 1 5] \<noteq> []
     \<and> (\<forall>r \<in> set [review_of 1 1 5, review_of 3 1 4, review_of 4 1 5].
           1 \<le> review.rating r \<and> review.rating r \<le> 5)
     \<and> length [review_of 1 1 5, review_of 3 1 4, review_of 4 1 5] < 2 ^ 32"
    by (simp add: review_of_def)
  have mean: "(of_int (sum_list [5, 4, 5]) :: rat) / of_nat (length [review_of 1 1 5, review_of 3 1 4, review_of 4 1 5]) = 14 / 3"
    by simp
  have rounded: "round1_spec (14 / 3) = 47 / 10"
    by (simp add: round1_spec_def round_half_away_from_zero_def floor_eval)
  have number: "binary64 (47 / 10) = 5291729562160333 / 1125899906842624" by code_simp
  have none: "filter (\<lambda>r. review.truckId r = 1) (reviews emptyDb) = []"
    by (simp add: emptyDb_def)
  show ?thesis
    using dashboard_average_rating [of 1 exampleDb 0, unfolded Let_def rs ratings mean rounded]
      dashboard_average_rating [of 1 emptyDb 0, unfolded Let_def none]
      range rs ratings rounded number none
    by simp
qed

subsection \<open>C3: low stock\<close>

lemma lowStockCondition_json: "lowStockCondition (inventoryItemJson item) = flagged_spec item"
  by (cases "lowStockThreshold item")
     (simp_all add: lowStockCondition_def inventoryItemJson_def flagged_spec_def
        Number_string_decimalText decimalText_not_empty)

lemma lowStockCondition_falsy:
  "\<not> truthy (lowStockThreshold item) \<Longrightarrow> \<not> lowStockCondition item"
  by (simp add: lowStockCondition_def)

text \<open>
  C3. For every sequence of inventory items (rows of the table, which the pages receive as
  JSON), both low-stock filters return exactly the items whose lowStockThreshold is present
  (non-null) and whose currentStock \<open>\<le>\<close> lowStockThreshold, in input order: the output is
  the filter of the input. An item whose lowStockThreshold is null or absent is never
  flagged, whatever its stock.
\<close>

theorem low_stock_filter:
  "lowStockItems_inventoryPage (map inventoryItemJson rows)
     = map inventoryItemJson (filter flagged_spec rows)
   \<and> lowStockItems_dashboard (Some (map inventoryItemJson rows))
     = map inventoryItemJson (filter flagged_spec rows)
   \<and> lowStockItems_inventoryPage (map (\<lambda>item. item\<lparr>lowStockThreshold := JNull\<rparr>) inventory) = []
   \<and> lowStockItems_inventoryPage (map (\<lambda>item. item\<lparr>lowStockThreshold := JUndefined\<rparr>) inventory)
     = []
   \<and> lowStockItems_dashboard (Some (map (\<lambda>item. item\<lparr>lowStockThreshold := JNull\<rparr>) inventory))
     = []
   \<and> lowStockItems_dashboard
       (Some (map (\<lambda>item. item\<lparr>lowStockThreshold := JUndefined\<rparr>) inventory)) = []"
proof -
  have "filter lowStockCondition (map inventoryItemJson xs)
        = map inventoryItemJson (filter flagged_spec xs)" for xs
    by (induction xs) (simp_all add: lowStockCondition_json)
  moreover have "filter lowStockCondition (map (\<lambda>item. item\<lparr>lowStockThreshold := v\<rparr>) xs) = []"
    if "\<not> truthy v" for v xs
    using that by (induction xs) (simp_all add: lowStockCondition_falsy)
  ultimately show ?thesis
    by (simp add: lowStockItems_inventoryPage_def lowStockItems_dashboard_def)
qed

text \<open>
  Carnitas (1.50 against a threshold of 2.00) and napkins (0.00 against 0.00) are flagged,
  in the order of the input; salsa, in stock 0.00, has no threshold and is not.
\<close>

theorem low_stock_filter_witness:
  "lowStockItems_inventoryPage (map inventoryItemJson [salsa, carnitas, napkins])
     = map inventoryItemJson [carnitas, napkins]
   \<and> lowStockThreshold (inventoryItemJson salsa) = JNull
   \<and> lowStockThreshold (inventoryItemJson carnitas) = JStr ''2.00''
   \<and> inventoryItem.currentStock (inventoryItemJson carnitas) = JStr ''1.50''"
  using low_stock_filter [of "[salsa, carnitas, napkins]"]
  by (simp add: flagged_spec_def salsa_def carnitas_def napkins_def
        inventoryItemJson_def digits.simps digitChar_def)

subsection \<open>C4: protein usage\<close>

lemma usagePercent_computed:
  "usagePercent (computeProteinUsage protein)
   = (if 0 < decimalValue (allocatedAmount protein)
      then Some (binary64 (binary64 (binary64 (Number_column (usedAmount protein))
                                     / binary64 (decimalValue (allocatedAmount protein))) * 100))
      else Some 0)"
proof -
  have used: "Number_field (usedAmount protein) = Some (binary64 (Number_column (usedAmount protein)))"
    by (cases "usedAmount protein") (simp_all add: binary64_zero Number_text_decimalText)
  show ?thesis
    using binary64_decimal_positive [of "allocatedAmount protein"]
    by (auto simp add: computeProteinUsage_def getUsagePercentage_def Let_def greater64_def used
        Number_text_decimalText)
qed

lemma isLow_computed:
  "isLow (computeProteinUsage protein)
   = (binary64 (decimalValue (proteinInventory.currentStock protein))
      < binary64 (binary64 (decimalValue (allocatedAmount protein)) * binary64 (2 / 10)))"
  by (simp add: computeProteinUsage_def Let_def Number_text_decimalText)

text \<open>
  The quotient of two amounts, times 100: four roundings, a relative error of at most
  \<open>5 / 2 ^ 53\<close>.
\<close>

lemma usage_error:
  fixes U A :: rat
  assumes U: "U = 0 \<or> 1 / 100 \<le> U" and A: "1 / 100 \<le> A" "A < 10 ^ 8"
  shows "\<bar>binary64 (binary64 (binary64 U / binary64 A) * 100) - U / A * 100\<bar>
         \<le> U / A * 100 * (5 / 2 ^ 53)"
proof (cases "U = 0")
  case True
  then show ?thesis by (simp add: binary64_zero)
next
  case False
  with U have Upos: "1 / 100 \<le> U" by simp
  define u where "u = binary64 U"
  define a where "a = binary64 A"
  define R where "R = U / A"
  define x where "x = u / a"
  define q where "q = binary64 x"
  define p where "p = binary64 (q * 100)"
  have Apos: "0 < A" using A(1) by linarith
  have "U = 0 \<or> 1 / 2 ^ 64 \<le> U" using Upos by (auto intro: order_trans [of _ "1 / 100"])
  then have "U - U / 2 ^ 53 \<le> u" "u \<le> U + U / 2 ^ 53"
    unfolding u_def by (rule binary64_near_nonneg)+
  then have u: "U - U / 9007199254740992 \<le> u" "u \<le> U + U / 9007199254740992" by simp_all
  have "A = 0 \<or> 1 / 2 ^ 64 \<le> A" using A(1) by (auto intro: order_trans [of _ "1 / 100"])
  then have "A - A / 2 ^ 53 \<le> a" "a \<le> A + A / 2 ^ 53"
    unfolding a_def by (rule binary64_near_nonneg)+
  then have a: "A - A / 9007199254740992 \<le> a" "a \<le> A + A / 9007199254740992" by simp_all
  have apos: "0 < a" using a(1) Apos by linarith
  have upos: "0 \<le> u" using u(1) Upos by linarith
  have "x \<le> (U + U / 9007199254740992) / (A - A / 9007199254740992)"
    unfolding x_def using upos u(2) a(1) Apos by (intro frac_le) linarith+
  also have "\<dots> = R * (9007199254740993 / 9007199254740991)"
    unfolding R_def using Apos by (simp add: field_simps)
  finally have upper: "x \<le> R * (9007199254740993 / 9007199254740991)" .
  have "(U - U / 9007199254740992) / (A + A / 9007199254740992) \<le> x"
    unfolding x_def using u(1) a(2) apos Upos by (intro frac_le) linarith+
  moreover have "(U - U / 9007199254740992) / (A + A / 9007199254740992)
                 = R * (9007199254740991 / 9007199254740993)"
    unfolding R_def using Apos by (simp add: field_simps)
  ultimately have lower: "R * (9007199254740991 / 9007199254740993) \<le> x" by simp
  have "1 / 100 / 10 ^ 8 \<le> U / A"
    using Upos A(2) Apos by (intro frac_le) simp_all
  then have R: "1 / 10000000000 \<le> R" unfolding R_def by simp
  have xlow: "1 / 20000000000 \<le> x" using lower R by linarith
  then have "x = 0 \<or> 1 / 2 ^ 64 \<le> x" by (auto intro: order_trans [of _ "1 / 20000000000"])
  then have "x - x / 2 ^ 53 \<le> q" "q \<le> x + x / 2 ^ 53"
    unfolding q_def by (rule binary64_near_nonneg)+
  then have q: "x - x / 9007199254740992 \<le> q" "q \<le> x + x / 9007199254740992" by simp_all
  have "1 / 20000000000 \<le> q * 100" using q(1) xlow by linarith
  then have "q * 100 = 0 \<or> 1 / 2 ^ 64 \<le> q * 100"
    by (auto intro: order_trans [of _ "1 / 20000000000"])
  then have "q * 100 - q * 100 / 2 ^ 53 \<le> p" "p \<le> q * 100 + q * 100 / 2 ^ 53"
    unfolding p_def by (rule binary64_near_nonneg)+
  then have p: "q * 100 - q * 100 / 9007199254740992 \<le> p"
    "p \<le> q * 100 + q * 100 / 9007199254740992"
    by simp_all
  have "\<bar>p - R * 100\<bar> \<le> R * 100 * (5 / 9007199254740992)"
    using p q upper lower R by linarith
  then show ?thesis unfolding p_def q_def x_def u_def a_def R_def by simp
qed

text \<open>
  The comparison with 20% of the allocation. Two amounts of the column that are not exactly
  at 20% are at least 0.002 apart from it, far more than the roundings of the three
  numbers and of the product.
\<close>

lemma isLow_agrees:
  fixes S A :: rat
  assumes S: "S = 0 \<or> 1 / 100 \<le> \<bar>S\<bar>" "\<bar>S\<bar> < 10 ^ 8"
    and A: "A = 0 \<or> 1 / 100 \<le> \<bar>A\<bar>" "\<bar>A\<bar> < 10 ^ 8"
    and apart: "S + 1 / 500 \<le> A * (2 / 10) \<or> A * (2 / 10) + 1 / 500 \<le> S"
  shows "(binary64 S < binary64 (binary64 A * binary64 (2 / 10))) = (S < A * (2 / 10))"
proof -
  define s where "s = binary64 S"
  define a where "a = binary64 A"
  define c :: rat where "c = 3602879701896397 / 18014398509481984"
  define y where "y = a * c"
  define t where "t = binary64 y"
  have c: "binary64 (2 / 10) = c" unfolding c_def by (rule binary64_examples(2))
  have Sb: "\<bar>S\<bar> < 100000000" and Ab: "\<bar>A\<bar> < 100000000" using S(2) A(2) by simp_all
  have "S = 0 \<or> 1 / 2 ^ 64 \<le> \<bar>S\<bar>" using S(1) by (auto intro: order_trans [of _ "1 / 100"])
  then have "\<bar>s - S\<bar> \<le> \<bar>S\<bar> / 2 ^ 53" unfolding s_def by (rule binary64_near)
  then have "\<bar>s - S\<bar> \<le> \<bar>S\<bar> / 9007199254740992" by simp
  then have s: "S - 1 / 10000 \<le> s" "s \<le> S + 1 / 10000" using Sb by linarith+
  have "A = 0 \<or> 1 / 2 ^ 64 \<le> \<bar>A\<bar>" using A(1) by (auto intro: order_trans [of _ "1 / 100"])
  then have "\<bar>a - A\<bar> \<le> \<bar>A\<bar> / 2 ^ 53" unfolding a_def by (rule binary64_near)
  then have near: "\<bar>a - A\<bar> \<le> \<bar>A\<bar> / 9007199254740992" by simp
  then have a: "A - 1 / 10000 \<le> a" "a \<le> A + 1 / 10000" using Ab by linarith+
  have product: "A * (2 / 10) - 1 / 10000 \<le> y" "y \<le> A * (2 / 10) + 1 / 10000"
    unfolding y_def c_def using a Ab by linarith+
  have "y = 0 \<or> 1 / 2 ^ 64 \<le> \<bar>y\<bar>"
  proof (cases "A = 0")
    case True
    then show ?thesis by (simp add: y_def a_def binary64_zero)
  next
    case False
    with A(1) have "1 / 100 \<le> \<bar>A\<bar>" by simp
    then have "1 / 200 \<le> \<bar>a\<bar>" using near by linarith
    then have "1 / 200 * c \<le> \<bar>a\<bar> * c" by (intro mult_right_mono) (simp_all add: c_def)
    moreover have "\<bar>y\<bar> = \<bar>a\<bar> * c" unfolding y_def by (simp add: abs_mult c_def)
    ultimately have "1 / 2000 \<le> \<bar>y\<bar>" by (simp add: c_def)
    then show ?thesis by (auto intro: order_trans [of _ "1 / 2000"])
  qed
  then have "\<bar>t - y\<bar> \<le> \<bar>y\<bar> / 2 ^ 53" unfolding t_def by (rule binary64_near)
  then have "\<bar>t - y\<bar> \<le> \<bar>y\<bar> / 9007199254740992" by simp
  then have t: "y - 1 / 10000 \<le> t" "t \<le> y + 1 / 10000" using product Ab by linarith+
  have "(s < t) = (S < A * (2 / 10))" using s t product apart by linarith
  then show ?thesis unfolding s_def t_def y_def a_def c .
qed

lemma decimalValue_apart:
  assumes "decimalValue x \<noteq> decimalValue y * (2 / 10)"
  shows "decimalValue x + 1 / 500 \<le> decimalValue y * (2 / 10)
         \<or> decimalValue y * (2 / 10) + 1 / 500 \<le> decimalValue x"
proof (cases x)
  case x: (Hundredths m)
  show ?thesis
  proof (cases y)
    case y: (Hundredths n)
    have "5 * m \<noteq> n" using assms unfolding x y by auto
    then have "5 * m + 1 \<le> n \<or> n + 1 \<le> 5 * m" by linarith
    then have "(of_int (5 * m + 1) :: rat) \<le> of_int n \<or> (of_int (n + 1) :: rat) \<le> of_int (5 * m)"
      by (simp only: of_int_le_iff)
    then show ?thesis unfolding x y by auto
  qed
qed

text \<open>
  C4, as stated, at 3 lbs allocated and 0.60 in stock: the stock is exactly 20% of the
  allocation, not below it (as amounts and as the numbers nearest to them), and isLow is
  true, since \<^verbatim>\<open>3 * 0.2\<close> is 0.6000000000000001. At
  1 lb allocated and 0.07 used, \<open>(0.07 / 1) * 100\<close> is 7 and usagePercent is
  7.000000000000001 (exactly 7 + 1 / 2^50).
\<close>

theorem protein_rounding_counterexample:
  "decimalText (allocatedAmount chicken) = ''3.00''
   \<and> decimalText (proteinInventory.currentStock chicken) = ''0.60''
   \<and> decimalValue (proteinInventory.currentStock chicken)
     = decimalValue (allocatedAmount chicken) * (2 / 10)
   \<and> binary64 (decimalValue (proteinInventory.currentStock chicken))
     = binary64 (decimalValue (allocatedAmount chicken) * (2 / 10))
   \<and> isLow (computeProteinUsage chicken)
   \<and> Number_column (usedAmount beef) / decimalValue (allocatedAmount beef) * 100 = 7
   \<and> usagePercent (computeProteinUsage beef) = Some (7881299347898369 / 1125899906842624)
   \<and> (7 :: rat) < 7881299347898369 / 1125899906842624"
  by code_simp

text \<open>
  C4, amended. usagePercentage is 0 when allocatedAmount is not positive, in particular
  when it is 0; otherwise it is (usedAmount / allocatedAmount) * 100 as JavaScript computes
  it, the two amounts, the quotient and the product each rounded to the nearest binary64
  value: for a usedAmount that is not negative and an allocatedAmount below \<open>10 ^ 8\<close> it
  differs from the exact value by at most \<open>5 / 2 ^ 53\<close> of it. isLow is
  currentStock < allocatedAmount * 0.2 on the numbers, with the product rounded: for
  amounts of magnitude below \<open>10 ^ 8\<close> it is the comparison of the exact values whenever
  currentStock is not exactly 20% of allocatedAmount. isLow does not change with
  usedAmount, hence not with usagePercentage.
\<close>

theorem protein_usage:
  "(let used = Number_column (usedAmount protein);
        allocated = decimalValue (allocatedAmount protein);
        stock = decimalValue (proteinInventory.currentStock protein);
        usage = computeProteinUsage protein
    in usagePercent usage
         = (if 0 < allocated
            then Some (binary64 (binary64 (binary64 used / binary64 allocated) * 100))
            else Some 0)
     \<and> (0 \<le> used \<and> used < 10 ^ 8 \<and> 0 < allocated \<and> allocated < 10 ^ 8 \<longrightarrow>
          (\<exists>percent. usagePercent usage = Some percent
             \<and> \<bar>percent - used / allocated * 100\<bar> \<le> used / allocated * 100 * (5 / 2 ^ 53)))
     \<and> usagePercent (computeProteinUsage (protein\<lparr>allocatedAmount := Hundredths 0\<rparr>)) = Some 0
     \<and> isLow usage = (binary64 stock < binary64 (binary64 allocated * binary64 (2 / 10)))
     \<and> (\<bar>stock\<bar> < 10 ^ 8 \<and> \<bar>allocated\<bar> < 10 ^ 8 \<and> stock \<noteq> allocated * (2 / 10) \<longrightarrow>
          isLow usage = (stock < allocated * (2 / 10)))
     \<and> isLow (computeProteinUsage (protein\<lparr>usedAmount := used'\<rparr>)) = isLow usage)"
proof -
  define used where "used = Number_column (usedAmount protein)"
  define allocated where "allocated = decimalValue (allocatedAmount protein)"
  define stock where "stock = decimalValue (proteinInventory.currentStock protein)"
  have computed: "usagePercent (computeProteinUsage protein)
         = (if 0 < allocated
            then Some (binary64 (binary64 (binary64 used / binary64 allocated) * 100))
            else Some 0)"
    unfolding used_def allocated_def by (rule usagePercent_computed)
  have percent: "\<exists>percent. usagePercent (computeProteinUsage protein) = Some percent
             \<and> \<bar>percent - used / allocated * 100\<bar> \<le> used / allocated * 100 * (5 / 2 ^ 53)"
    if "0 \<le> used" "0 < allocated" "allocated < 10 ^ 8"
  proof -
    have "used = 0 \<or> 1 / 100 \<le> used"
    proof (cases "usedAmount protein")
      case None
      then show ?thesis by (simp add: used_def)
    next
      case (Some d)
      then show ?thesis using that(1) decimalValue_least [of d] by (simp add: used_def)
    qed
    moreover have "1 / 100 \<le> allocated"
      using that(2) decimalValue_least [of "allocatedAmount protein"]
      by (simp add: allocated_def)
    ultimately have "\<bar>binary64 (binary64 (binary64 used / binary64 allocated) * 100)
                      - used / allocated * 100\<bar> \<le> used / allocated * 100 * (5 / 2 ^ 53)"
      using that(3) by (rule usage_error)
    then show ?thesis using computed that(2) by simp
  qed
  have zero: "usagePercent (computeProteinUsage (protein\<lparr>allocatedAmount := Hundredths 0\<rparr>)) = Some 0"
    by (simp add: usagePercent_computed)
  have low: "isLow (computeProteinUsage protein)
             = (binary64 stock < binary64 (binary64 allocated * binary64 (2 / 10)))"
    unfolding stock_def allocated_def by (rule isLow_computed)
  have agrees: "isLow (computeProteinUsage protein) = (stock < allocated * (2 / 10))"
    if "\<bar>stock\<bar> < 10 ^ 8" "\<bar>allocated\<bar> < 10 ^ 8" "stock \<noteq> allocated * (2 / 10)"
  proof -
    have "stock + 1 / 500 \<le> allocated * (2 / 10) \<or> allocated * (2 / 10) + 1 / 500 \<le> stock"
      using that(3) unfolding stock_def allocated_def by (rule decimalValue_apart)
    then have "(binary64 stock < binary64 (binary64 allocated * binary64 (2 / 10)))
               = (stock < allocated * (2 / 10))"
      using decimalValue_abs_least [of "proteinInventory.currentStock protein"]
        decimalValue_abs_least [of "allocatedAmount protein"] that(1,2)
      unfolding stock_def allocated_def by (intro isLow_agrees)
    then show ?thesis by (simp only: low)
  qed
  have independent: "isLow (computeProteinUsage (protein\<lparr>usedAmount := used'\<rparr>))
                     = isLow (computeProteinUsage protein)"
    by (simp add: isLow_computed)
  show ?thesis
    unfolding Let_def used_def [symmetric] allocated_def [symmetric] stock_def [symmetric]
    using computed percent zero low agrees independent by blast
qed

text \<open>
  Allocated 50, stock 8, used 20: 40 percent used, and low (8 < 10). Allocated 3 and
  stock 0.60 is the case that the comparison of the exact values leaves out.
\<close>

theorem protein_usage_witness:
  "Number_column (usedAmount pork) = 20 \<and> decimalValue (allocatedAmount pork) = 50
   \<and> decimalValue (proteinInventory.currentStock pork) = 8
   \<and> usagePercent (computeProteinUsage pork) = Some 40
   \<and> \<bar>40 - 20 / 50 * 100 :: rat\<bar> \<le> 20 / 50 * 100 * (5 / 2 ^ 53)
   \<and> isLow (computeProteinUsage pork) = ((8 :: rat) < 50 * (2 / 10))
   \<and> isLow (computeProteinUsage pork)"
proof -
  have amounts: "Number_column (usedAmount pork) = 20" "decimalValue (allocatedAmount pork) = 50"
    "decimalValue (proteinInventory.currentStock pork) = 8"
    by (simp_all add: pork_def)
  have number: "binary64 (binary64 (binary64 20 / binary64 50) * 100) = 40" by code_simp
  have range: "(0 :: rat) \<le> 20 \<and> (20 :: rat) < 10 ^ 8 \<and> (0 :: rat) < 50 \<and> (50 :: rat) < 10 ^ 8"
    "\<bar>8 :: rat\<bar> < 10 ^ 8 \<and> \<bar>50 :: rat\<bar> < 10 ^ 8 \<and> (8 :: rat) \<noteq> 50 * (2 / 10)"
    by simp_all
  have positive: "(if (0 :: rat) < 50 then a else b) = a" for a b :: "rat option" by simp
  note usage = protein_usage [of pork, unfolded Let_def amounts number positive]
  have percent: "usagePercent (computeProteinUsage pork) = Some 40" using usage by blast
  have "\<exists>percent. usagePercent (computeProteinUsage pork) = Some percent
          \<and> \<bar>percent - 20 / 50 * 100\<bar> \<le> 20 / 50 * 100 * (5 / 2 ^ 53)"
    using usage range(1) by blast
  then have bound: "\<bar>40 - 20 / 50 * 100 :: rat\<bar> \<le> 20 / 50 * 100 * (5 / 2 ^ 53)"
    unfolding percent by blast
  have low: "isLow (computeProteinUsage pork) = ((8 :: rat) < 50 * (2 / 10))"
    using usage range(2) by blast
  then have "isLow (computeProteinUsage pork)" by simp
  then show ?thesis using amounts percent bound low by (intro conjI)
qed

subsection \<open>C5: formatOrderItems\<close>

lemma stringable_toString:
  "stringable v \<Longrightarrow> \<exists>s. toString str v = Inr s"
  "list_all stringable xs \<Longrightarrow> \<exists>s. joinElements str xs = Inr s"
  "stringable v \<Longrightarrow> \<exists>s. element str v = Inr s"
  by (induction str v and str xs and str v rule: toString_joinElements_element.induct)
     (auto split: sum.splits)

lemma property_text:
  assumes "case map_of kvs key of None \<Rightarrow> True | Some v \<Rightarrow> stringable v"
  shows "\<exists>v s. getProperty (JObj kvs) key = Inr v \<and> toString str v = Inr s"
proof (cases "map_of kvs key")
  case None
  then show ?thesis by simp
next
  case (Some v)
  with assms have "stringable v" by simp
  then obtain s where "toString str v = Inr s" using stringable_toString(1) by blast
  with Some show ?thesis by simp
qed

lemma renderItem_wellFormed:
  assumes "wellFormedEntry x"
  shows "\<exists>s. renderItem str x = Inr s"
proof (cases x)
  case (JPrim p)
  with assms show ?thesis by (cases p) (simp_all add: renderItem_def andThen_def)
next
  case (JArr xs)
  then show ?thesis by (simp add: renderItem_def andThen_def)
next
  case (JObj kvs)
  with assms obtain qv q where
    quantity: "getProperty (JObj kvs) ''quantity'' = Inr qv" "toString str qv = Inr q"
    using property_text [of kvs "''quantity''" str] by auto
  from JObj assms obtain nv n where
    name: "getProperty (JObj kvs) ''name'' = Inr nv" "toString str nv = Inr n"
    using property_text [of kvs "''name''" str] by auto
  show ?thesis
    unfolding JObj renderItem_def andThen_def by (simp only: quantity name sum.case) simp
qed

lemma mapThrowing_all:
  assumes "\<forall>x \<in> set xs. \<exists>s. f x = Inr s"
  shows "mapThrowing f xs = Inr (map (\<lambda>x. projr (f x)) xs)"
  using assms
proof (induction xs)
  case Nil
  show ?case by simp
next
  case (Cons a xs)
  then obtain s where head: "f a = Inr s" by auto
  from Cons have "mapThrowing f xs = Inr (map (\<lambda>x. projr (f x)) xs)" by simp
  with head show ?case by (simp add: andThen_def)
qed

text \<open>
  C5, as stated, at the sequence \<^verbatim>\<open>[null]\<close>, given as it is or as the text \<^verbatim>\<open>"[null]"\<close>: the
  callback reads \<^verbatim>\<open>item.quantity\<close> of \<^verbatim>\<open>null\<close> and the call raises \<^verbatim>\<open>TypeError\<close>.
\<close>

theorem formatOrderItems_null_entry_counterexample:
  "formatOrderItems JSON_parse_examples wholeNumberToString (JArr [JPrim JNull]) = Inl TypeError
   \<and> JSON_parse_examples ''[null]'' = Some (JArr [JPrim JNull])
   \<and> formatOrderItems JSON_parse_examples wholeNumberToString (JPrim (JStr ''[null]''))
       = Inl TypeError"
  by (simp add: formatOrderItems_def JSON_parse_examples_def renderItem_def andThen_def)

text \<open>
  C5, amended. Given a text, formatOrderItems decodes it as JSON and on a decode failure
  returns the fixed text "Invalid order data" instead of failing the caller; if the given
  or decoded value is not a sequence it returns the fixed text "No items"; otherwise, for
  every sequence whose entries are neither null nor undefined and whose quantity and name
  convert to text, it returns the entries rendered as "{quantity}x {name}" joined by ", "
  in input order. On all these inputs it returns a text and raises no error.
\<close>

theorem formatOrderItems_result:
  "(givenOrDecoded parse items = None \<longrightarrow>
      formatOrderItems parse str items = Inr ''Invalid order data'')
   \<and> (givenOrDecoded parse items = Some v \<and> \<not> isArray v \<longrightarrow>
      formatOrderItems parse str items = Inr ''No items'')
   \<and> (givenOrDecoded parse items = Some (JArr xs) \<and> list_all wellFormedEntry xs \<longrightarrow>
      formatOrderItems parse str items
        = Inr (join '', '' (map (\<lambda>x. projr (renderItem str x)) xs)))
   \<and> (map_of kvs ''quantity'' = Some (JPrim (JNum q)) \<and> map_of kvs ''name'' = Some (JPrim (JStr n))
      \<longrightarrow> renderItem str (JObj kvs) = Inr (str q @ ''x '' @ n))"
proof (intro conjI impI)
  assume "givenOrDecoded parse items = None"
  then show "formatOrderItems parse str items = Inr ''Invalid order data''"
    by (simp add: formatOrderItems_def)
next
  assume "givenOrDecoded parse items = Some v \<and> \<not> isArray v"
  then show "formatOrderItems parse str items = Inr ''No items''"
    by (cases v) (simp_all add: formatOrderItems_def)
next
  assume a: "givenOrDecoded parse items = Some (JArr xs) \<and> list_all wellFormedEntry xs"
  then have "\<forall>x \<in> set xs. \<exists>s. renderItem str x = Inr s"
    using renderItem_wellFormed by (auto simp: list_all_iff)
  then have "mapThrowing (renderItem str) xs = Inr (map (\<lambda>x. projr (renderItem str x)) xs)"
    by (rule mapThrowing_all)
  with a show "formatOrderItems parse str items
        = Inr (join '', '' (map (\<lambda>x. projr (renderItem str x)) xs))"
    by (simp add: formatOrderItems_def andThen_def)
next
  assume "map_of kvs ''quantity'' = Some (JPrim (JNum q)) \<and> map_of kvs ''name'' = Some (JPrim (JStr n))"
  then show "renderItem str (JObj kvs) = Inr (str q @ ''x '' @ n)"
    by (simp add: renderItem_def andThen_def)
qed

text \<open>
  The order of two tacos and a burrito, given as a sequence and as its JSON text; a text
  that is not JSON; an object and \<^verbatim>\<open>undefined\<close>, which are not sequences.
\<close>

theorem formatOrderItems_result_witness:
  \<open>formatOrderItems JSON_parse_examples wholeNumberToString tacoOrder = Inr ''2x Taco, 1x Burrito''
   \<and> formatOrderItems JSON_parse_examples wholeNumberToString
        (JPrim (JStr ''[{"name":"Taco","quantity":2,"price":12.5},{"name":"Burrito","quantity":1,"price":9}]''))
      = Inr ''2x Taco, 1x Burrito''
   \<and> formatOrderItems JSON_parse_examples wholeNumberToString (JPrim (JStr ''not json''))
      = Inr ''Invalid order data''
   \<and> formatOrderItems JSON_parse_examples wholeNumberToString (JPrim (JStr ''{"name":"Taco"}''))
      = Inr ''No items''
   \<and> formatOrderItems JSON_parse_examples wholeNumberToString (JPrim JUndefined) = Inr ''No items''\<close>
proof -
  let ?text = \<open>''[{"name":"Taco","quantity":2,"price":12.5},{"name":"Burrito","quantity":1,"price":9}]''\<close>
  let ?taco = "[(''name'', JPrim (JStr ''Taco'')), (''quantity'', JPrim (JNum 2)),
                (''price'', JPrim (JNum (25 / 2)))]"
  let ?burrito = "[(''name'', JPrim (JStr ''Burrito'')), (''quantity'', JPrim (JNum 1)),
                   (''price'', JPrim (JNum 9))]"
  have entries: "list_all wellFormedEntry [JObj ?taco, JObj ?burrito]"
    by simp
  have given: "givenOrDecoded JSON_parse_examples tacoOrder = Some (JArr [JObj ?taco, JObj ?burrito])"
    by (simp add: tacoOrder_def)
  have decoded: "givenOrDecoded JSON_parse_examples (JPrim (JStr ?text))
                 = Some (JArr [JObj ?taco, JObj ?burrito])"
    by (simp add: JSON_parse_examples_def tacoOrder_def)
  have rejected: "givenOrDecoded JSON_parse_examples (JPrim (JStr ''not json'')) = None"
    by (simp add: JSON_parse_examples_def)
  have object: \<open>givenOrDecoded JSON_parse_examples (JPrim (JStr ''{"name":"Taco"}''))
                = Some (JObj [(''name'', JPrim (JStr ''Taco''))])
                \<and> \<not> isArray (JObj [(''name'', JPrim (JStr ''Taco''))])\<close>
    by (simp add: JSON_parse_examples_def)
  have undefined: "givenOrDecoded JSON_parse_examples (JPrim JUndefined) = Some (JPrim JUndefined)
                   \<and> \<not> isArray (JPrim JUndefined)"
    by simp
  have two: "wholeNumberToString 2 = ''2''" and one: "wholeNumberToString 1 = ''1''"
    by (simp_all add: wholeNumberToString_def digits.simps digitChar_def)
  note r = formatOrderItems_result [where parse = JSON_parse_examples and str = wholeNumberToString]
  show ?thesis
    using r [of tacoOrder _ "[JObj ?taco, JObj ?burrito]" ?taco 2 "''Taco''"]
      r [of "JPrim (JStr ?text)" _ "[JObj ?taco, JObj ?burrito]" ?burrito 1 "''Burrito''"]
      r [of "JPrim (JStr ''not json'')"]
      r [of \<open>JPrim (JStr ''{"name":"Taco"}'')\<close> "JObj [(''name'', JPrim (JStr ''Taco''))]"]
      r [of "JPrim JUndefined" "JPrim JUndefined"]
      entries given decoded rejected object undefined
    by (simp add: two one)
qed

subsection \<open>C6: the rating distribution\<close>

lemma count_by_rating:
  assumes "\<forall>r \<in> set rs. 1 \<le> f r \<and> f r \<le> (5::int)"
  shows "length (filter (\<lambda>r. f r = 5) rs) + length (filter (\<lambda>r. f r = 4) rs)
       + length (filter (\<lambda>r. f r = 3) rs) + length (filter (\<lambda>r. f r = 2) rs)
       + length (filter (\<lambda>r. f r = 1) rs) = length rs"
  using assms
proof (induction rs)
  case Nil
  then show ?case by simp
next
  case (Cons r rs)
  then have "f r = 1 \<or> f r = 2 \<or> f r = 3 \<or> f r = 4 \<or> f r = 5" by force
  with Cons show ?case by auto
qed

lemma percentages_binary64:
  assumes "\<forall>r \<in> set rs. 1 \<le> review.rating r \<and> review.rating r \<le> 5"
    and "0 < length rs" "length rs < 2 ^ 32"
  shows "\<bar>sum_list (map percentage (ratingDistribution binary64 rs)) - 100\<bar> \<le> 1 / 10 ^ 13"
proof -
  let ?n = "\<lambda>k. length (filter (\<lambda>r. review.rating r = k) rs)"
  have counts: "?n 5 + ?n 4 + ?n 3 + ?n 2 + ?n 1 = length rs"
    using count_by_rating [OF assms(1)] .
  show ?thesis
    using five_percentages [OF counts assms(2,3)] assms(2)
    by (simp add: ratingDistribution_def add.assoc)
qed

text \<open>
  C6, as stated, at three reviews with the ratings 1, 2 and 3: JavaScript computes each
  of the three percentages as \<^verbatim>\<open>(1 / 3) * 100\<close>, which is the binary64 value
  33.33333333333333 (exactly 2345624805922133 / 2^46). The five percentages sum to
  7036874417766399 / 2^46, which is 99.99999999999998... and not 100, whether they are
  added exactly or, as JavaScript would, with each partial sum rounded.
\<close>

theorem rating_percentages_counterexample:
  "map review.rating threeReviews = [1, 2, 3]
   \<and> map percentage (ratingDistribution binary64 threeReviews)
       = [0, 0, 2345624805922133 / 70368744177664, 2345624805922133 / 70368744177664,
          2345624805922133 / 70368744177664]
   \<and> sum_list (map percentage (ratingDistribution binary64 threeReviews))
       = 7036874417766399 / 70368744177664
   \<and> reduce (\<lambda>sum p. binary64 (sum + p)) 0
         (map percentage (ratingDistribution binary64 threeReviews))
       = 7036874417766399 / 70368744177664
   \<and> (7036874417766399 / 70368744177664 :: rat) < 100"
  by code_simp

text \<open>
  C6, amended. For every review sequence whose ratings all lie in 1..5, the distribution
  has the five buckets 5, 4, 3, 2, 1, each once; each bucket's count is the number of
  reviews with that rating and its percentage is count / totalReviews * 100 (0 if
  totalReviews is 0); the five counts sum to totalReviews; when totalReviews is 0 all five
  counts are 0, whatever the rounding of the arithmetic; and when totalReviews > 0 the
  five percentages sum to exactly 100 in exact arithmetic, and as the binary64 values that
  JavaScript computes their sum differs from 100 by at most \<open>10 ^ (- 13)\<close>, for fewer
  than \<open>2 ^ 32\<close> reviews (the bound on the length of a JavaScript array).
\<close>

theorem rating_distribution:
  assumes "\<forall>r \<in> set rs. 1 \<le> review.rating r \<and> review.rating r \<le> 5"
  shows "(let dist = ratingDistribution fl rs; total = length rs
          in map ratingBucket.rating dist = [5, 4, 3, 2, 1]
           \<and> (\<forall>b \<in> set dist.
                 count b = length (filter (\<lambda>r. review.rating r = ratingBucket.rating b) rs)
               \<and> percentage b
                 = (if total = 0 then 0 else fl (fl (of_nat (count b) / of_nat total) * 100)))
           \<and> sum_list (map count dist) = total
           \<and> (total = 0 \<longrightarrow> (\<forall>b \<in> set dist. count b = 0))
           \<and> (total > 0 \<longrightarrow> sum_list (map percentage (ratingDistribution exact rs)) = 100)
           \<and> (total > 0 \<and> total < 2 ^ 32 \<longrightarrow>
                \<bar>sum_list (map percentage (ratingDistribution binary64 rs)) - 100\<bar>
                \<le> 1 / 10 ^ 13))"
proof -
  let ?n = "\<lambda>k. length (filter (\<lambda>r. review.rating r = k) rs)"
  have counts: "?n 5 + ?n 4 + ?n 3 + ?n 2 + ?n 1 = length rs"
    using count_by_rating [OF assms] .
  have "(of_nat (?n 5) + of_nat (?n 4) + of_nat (?n 3) + of_nat (?n 2) + of_nat (?n 1) :: rat)
        = of_nat (length rs)"
    unfolding counts [symmetric] by simp
  then have percentages:
    "(of_nat (?n 5) / of_nat (length rs) * 100 + of_nat (?n 4) / of_nat (length rs) * 100
      + of_nat (?n 3) / of_nat (length rs) * 100 + of_nat (?n 2) / of_nat (length rs) * 100
      + of_nat (?n 1) / of_nat (length rs) * 100 :: rat) = 100" if "rs \<noteq> []"
    using that by (simp add: field_simps)
  have rounded: "\<bar>sum_list (map percentage (ratingDistribution binary64 rs)) - 100\<bar>
                 \<le> 1 / 10 ^ 13" if "0 < length rs" "length rs < 2 ^ 32"
    using assms that by (rule percentages_binary64)
  have "let dist = ratingDistribution fl rs; total = length rs
        in map ratingBucket.rating dist = [5, 4, 3, 2, 1]
           \<and> (\<forall>b \<in> set dist.
                 count b = length (filter (\<lambda>r. review.rating r = ratingBucket.rating b) rs)
               \<and> percentage b
                 = (if total = 0 then 0 else fl (fl (of_nat (count b) / of_nat total) * 100)))
           \<and> sum_list (map count dist) = total
           \<and> (total = 0 \<longrightarrow> (\<forall>b \<in> set dist. count b = 0))
           \<and> (total > 0 \<longrightarrow> sum_list (map percentage (ratingDistribution exact rs)) = 100)"
    using counts percentages
    by (simp add: ratingDistribution_def exact_def Let_def add.assoc)
  with rounded show ?thesis by (simp add: Let_def)
qed

text \<open>
  Three reviews rated 1, 2, 3: the counts are 0, 0, 1, 1, 1 and the exact percentages
  0, 0, 100/3, 100/3, 100/3; no review: all counts are 0.
\<close>

theorem rating_distribution_witness:
  "list_all (\<lambda>r. 1 \<le> review.rating r \<and> review.rating r \<le> 5) threeReviews
   \<and> length threeReviews > 0
   \<and> map count (ratingDistribution binary64 threeReviews) = [0, 0, 1, 1, 1]
   \<and> map percentage (ratingDistribution exact threeReviews) = [0, 0, 100 / 3, 100 / 3, 100 / 3]
   \<and> sum_list (map percentage (ratingDistribution exact threeReviews)) = 100
   \<and> length threeReviews < 2 ^ 32
   \<and> \<bar>sum_list (map percentage (ratingDistribution binary64 threeReviews)) - 100\<bar>
       \<le> 1 / 10 ^ 13
   \<and> map count (ratingDistribution binary64 []) = [0, 0, 0, 0, 0]"
proof -
  have in_range: "\<forall>r \<in> set threeReviews. 1 \<le> review.rating r \<and> review.rating r \<le> 5"
    by (simp add: threeReviews_def review_of_def)
  have none: "\<forall>r \<in> set ([] :: review list). 1 \<le> review.rating r \<and> review.rating r \<le> 5"
    by simp
  have size: "0 < length threeReviews" "length threeReviews < 2 ^ 32"
    by (simp_all add: threeReviews_def)
  have "\<bar>sum_list (map percentage (ratingDistribution binary64 threeReviews)) - 100\<bar>
        \<le> 1 / 10 ^ 13"
    using rating_distribution [OF in_range, of binary64] size by (simp add: Let_def)
  moreover have "list_all (\<lambda>r. 1 \<le> review.rating r \<and> review.rating r \<le> 5) threeReviews
   \<and> length threeReviews > 0
   \<and> map count (ratingDistribution binary64 threeReviews) = [0, 0, 1, 1, 1]
   \<and> map percentage (ratingDistribution exact threeReviews) = [0, 0, 100 / 3, 100 / 3, 100 / 3]
   \<and> sum_list (map percentage (ratingDistribution exact threeReviews)) = 100
   \<and> map count (ratingDistribution binary64 []) = [0, 0, 0, 0, 0]"
    using rating_distribution [OF none, of binary64]
    by (simp add: Let_def threeReviews_def review_of_def ratingDistribution_def exact_def)
  ultimately show ?thesis using size by blast
qed

subsection \<open>C7: the dashboard statistics are a function of the tables\<close>

lemma length_filter_mset:
  assumes "mset xs = mset ys"
  shows "length (filter P xs) = length (filter P ys)"
proof -
  have "mset (filter P xs) = mset (filter P ys)" using assms by (simp only: mset_filter)
  then show ?thesis by (rule mset_eq_length)
qed

lemma averageRating_number: "\<exists>rating. averageRating (fst (getDashboardStats now t d)) = Some rating"
  by (simp add: getDashboardStats_def select_def Let_def reduce_plus64 Math_round64_def)

lemma todaySales_mset:
  fixes d d' :: db and t :: int
  defines "amounts \<equiv> \<lambda>d. map (\<lambda>x. decimalValue (totalAmount x))
             (filter (\<lambda>x. order.truckId x = t \<and> status x = ''completed'') (orders d))"
  defines "sales \<equiv> \<lambda>d. foldl (\<lambda>sum x. binary64 (sum + binary64 x)) 0 (amounts d)"
  assumes same: "mset (orders d) = mset (orders d')"
    and range: "\<forall>x \<in> set (amounts d). 0 \<le> x \<and> x < 10 ^ 8"
    and size: "length (amounts d) < 2 ^ 32"
  shows "\<bar>sales d - sales d'\<bar> \<le> (of_nat (length (amounts d)) + 1) / 2 ^ 51 * sum_list (amounts d)"
proof -
  have "mset (amounts d) = mset (amounts d')"
    unfolding amounts_def using same by (simp only: mset_map mset_filter)
  then have perm: "mset (amounts d') = mset (amounts d)" by (rule sym)
  have set: "set (amounts d') = set (amounts d)" using perm by (rule mset_eq_setD)
  have len: "length (amounts d') = length (amounts d)" using perm by (rule mset_eq_length)
  have "sum_mset (mset (amounts d')) = sum_mset (mset (amounts d))" using perm by (rule arg_cong)
  then have sum: "sum_list (amounts d') = sum_list (amounts d)"
    by (simp only: sum_mset_sum_list)
  have least: "\<forall>x \<in> set (amounts d). x = 0 \<or> 1 / 100 \<le> x"
  proof
    fix x
    assume "x \<in> set (amounts d)"
    then have "0 \<le> x" and "\<exists>d. x = decimalValue d"
      using range unfolding amounts_def by auto
    then show "x = 0 \<or> 1 / 100 \<le> x" using decimalValue_least by blast
  qed
  define c :: rat where "c = (of_nat (length (amounts d)) + 1) / 2 ^ 52"
  define total where "total = sum_list (amounts d)"
  have one: "\<bar>sales d - total\<bar> \<le> c * total"
    unfolding sales_def c_def total_def using least size by (rule foldl_binary64_error)
  have "\<forall>x \<in> set (amounts d'). x = 0 \<or> 1 / 100 \<le> x" using least set by simp
  moreover have "length (amounts d') < 2 ^ 32" using size len by simp
  ultimately have "\<bar>sales d' - sum_list (amounts d')\<bar>
        \<le> (of_nat (length (amounts d')) + 1) / 2 ^ 52 * sum_list (amounts d')"
    unfolding sales_def by (rule foldl_binary64_error)
  then have other: "\<bar>sales d' - total\<bar> \<le> c * total"
    unfolding c_def total_def len sum .
  have "(of_nat (length (amounts d)) + 1) / 2 ^ 51 * sum_list (amounts d) = c * total + c * total"
    unfolding c_def total_def by (simp add: field_simps)
  moreover have "\<bar>sales d - sales d'\<bar> \<le> c * total + c * total"
    using one other by linarith
  ultimately show ?thesis by (simp only:)
qed

text \<open>
  C7, as stated, at three completed orders of 0.10, 0.20 and 0.30 and the same three rows
  returned in the opposite order: the sets of orders are equal and the two results are
  not. \<^verbatim>\<open>0 + 0.1 + 0.2 + 0.3\<close> is 0.6000000000000001 and \<^verbatim>\<open>0 + 0.3 + 0.2 + 0.1\<close> is 0.6.
\<close>

theorem dashboard_row_order_counterexample:
  "set (orders ascendingDb) = set (orders descendingDb)
   \<and> mset (orders ascendingDb) = mset (orders descendingDb)
   \<and> reviews ascendingDb = reviews descendingDb
   \<and> locations ascendingDb = locations descendingDb
   \<and> todaySales (fst (getDashboardStats 0 1 ascendingDb))
     = Some (5404319552844596 / 9007199254740992)
   \<and> todaySales (fst (getDashboardStats 0 1 descendingDb))
     = Some (5404319552844595 / 9007199254740992)
   \<and> (5404319552844595 / 9007199254740992 :: rat) < 5404319552844596 / 9007199254740992"
proof -
  have "todaySales (fst (getDashboardStats 0 1 ascendingDb))
        = Some (5404319552844596 / 9007199254740992)"
    by code_simp
  moreover have "todaySales (fst (getDashboardStats 0 1 descendingDb))
        = Some (5404319552844595 / 9007199254740992)"
    by code_simp
  moreover have "mset (orders ascendingDb) = mset (orders descendingDb)"
    by (simp add: ascendingDb_def descendingDb_def)
  moreover have "set (orders ascendingDb) = set (orders descendingDb)"
    by (auto simp add: ascendingDb_def descendingDb_def)
  moreover have "reviews ascendingDb = reviews descendingDb"
    "locations ascendingDb = locations descendingDb"
    by (simp_all add: ascendingDb_def descendingDb_def)
  ultimately show ?thesis by simp
qed

text \<open>
  C7, amended. getDashboardStats is a function of the truck and of the tables as the
  database returns them: two invocations on the same rows in the same order return equal
  results at any two clock times (the today/tomorrow range is never used). It runs three
  queries and leaves the tables as they were. It has no failure path: todaySales and
  averageRating are numbers, never \<open>NaN\<close>, since the division of the mean is guarded and
  every totalAmount is the text of a decimal. When the tables hold the same rows in another
  order, ordersToday and activeLocations are equal, averageRating is equal for ratings in
  1..5, and the two values of todaySales differ by at most \<open>(n + 1) / 2 ^ 51\<close> of the exact
  sum, for \<open>n\<close> completed orders with amounts that are not negative (fewer than \<open>2 ^ 32\<close>
  rows throughout).
\<close>

theorem dashboard_deterministic:
  "getDashboardStats now t d = getDashboardStats now' t d
   \<and> snd (getDashboardStats now t d) = d
   \<and> (\<exists>sales rating. todaySales (fst (getDashboardStats now t d)) = Some sales
                     \<and> averageRating (fst (getDashboardStats now t d)) = Some rating)
   \<and> (mset (orders d) = mset (orders d') \<and> mset (reviews d) = mset (reviews d')
       \<and> mset (locations d) = mset (locations d') \<longrightarrow>
       (let stats = fst (getDashboardStats now t d);
            stats' = fst (getDashboardStats now' t d');
            amounts = map (\<lambda>x. decimalValue (totalAmount x))
                        (filter (\<lambda>x. order.truckId x = t \<and> status x = ''completed'') (orders d));
            ratings = map review.rating (filter (\<lambda>r. review.truckId r = t) (reviews d))
        in ordersToday stats = ordersToday stats'
         \<and> activeLocations stats = activeLocations stats'
         \<and> ((\<forall>r \<in> set ratings. 1 \<le> r \<and> r \<le> 5) \<and> length ratings < 2 ^ 32 \<longrightarrow>
              averageRating stats = averageRating stats')
         \<and> ((\<forall>x \<in> set amounts. 0 \<le> x \<and> x < 10 ^ 8) \<and> length amounts < 2 ^ 32 \<longrightarrow>
              (\<exists>sales sales'. todaySales stats = Some sales \<and> todaySales stats' = Some sales'
                 \<and> \<bar>sales - sales'\<bar>
                    \<le> (of_nat (length amounts) + 1) / 2 ^ 51 * sum_list amounts))))"
proof (intro conjI impI)
  show "getDashboardStats now t d = getDashboardStats now' t d"
    by (simp add: getDashboardStats_def Let_def)
  show "snd (getDashboardStats now t d) = d"
    by (simp add: getDashboardStats_def select_def Let_def)
  show "\<exists>sales rating. todaySales (fst (getDashboardStats now t d)) = Some sales
                     \<and> averageRating (fst (getDashboardStats now t d)) = Some rating"
    using averageRating_number [of now t d] by (simp add: todaySales_stats)
next
  assume "mset (orders d) = mset (orders d') \<and> mset (reviews d) = mset (reviews d')
       \<and> mset (locations d) = mset (locations d')"
  then have orders: "mset (orders d) = mset (orders d')"
    and reviews: "mset (reviews d) = mset (reviews d')"
    and locations: "mset (locations d) = mset (locations d')"
    by simp_all
  define rs where "rs = filter (\<lambda>r. review.truckId r = t) (reviews d)"
  have count: "ordersToday (fst (getDashboardStats now t d))
               = ordersToday (fst (getDashboardStats now' t d'))"
    unfolding ordersToday_stats using orders by (rule length_filter_mset)
  have active: "activeLocations (fst (getDashboardStats now t d))
                = activeLocations (fst (getDashboardStats now' t d'))"
    unfolding activeLocations_stats using locations by (rule length_filter_mset)
  have rating: "averageRating (fst (getDashboardStats now t d))
                = averageRating (fst (getDashboardStats now' t d'))"
    if "\<forall>r \<in> set (map review.rating rs). 1 \<le> r \<and> r \<le> 5" "length (map review.rating rs) < 2 ^ 32"
  proof -
    have range: "\<forall>r \<in> set rs. 1 \<le> review.rating r \<and> review.rating r \<le> 5"
      and size: "length rs < 2 ^ 32"
      using that by simp_all
    have "mset (filter (\<lambda>r. review.truckId r = t) (reviews d')) = mset rs"
      unfolding rs_def using reviews by (simp only: mset_filter)
    then have "averageRating (fst (getDashboardStats now' t d'))
         = Some (if rs = [] then 0
                 else binary64 (round1_spec (of_int (sum_list (map review.rating rs))
                                             / of_nat (length rs))))"
      using range size by (rule averageRating_mset)
    moreover have "averageRating (fst (getDashboardStats now t d))
         = Some (if rs = [] then 0
                 else binary64 (round1_spec (of_int (sum_list (map review.rating rs))
                                             / of_nat (length rs))))"
      using rs_def [symmetric] range size by (intro averageRating_mset) simp
    ultimately show ?thesis by simp
  qed
  have sales: "\<exists>sales sales'. todaySales (fst (getDashboardStats now t d)) = Some sales
        \<and> todaySales (fst (getDashboardStats now' t d')) = Some sales'
        \<and> \<bar>sales - sales'\<bar> \<le> (of_nat (length amounts) + 1) / 2 ^ 51 * sum_list amounts"
    if "amounts = map (\<lambda>x. decimalValue (totalAmount x))
                        (filter (\<lambda>x. order.truckId x = t \<and> status x = ''completed'') (orders d))"
      "\<forall>x \<in> set amounts. 0 \<le> x \<and> x < 10 ^ 8" "length amounts < 2 ^ 32" for amounts
    using todaySales_mset [OF orders, of t] that by (simp add: todaySales_stats)
  show "let stats = fst (getDashboardStats now t d);
            stats' = fst (getDashboardStats now' t d');
            amounts = map (\<lambda>x. decimalValue (totalAmount x))
                        (filter (\<lambda>x. order.truckId x = t \<and> status x = ''completed'') (orders d));
            ratings = map review.rating (filter (\<lambda>r. review.truckId r = t) (reviews d))
        in ordersToday stats = ordersToday stats'
         \<and> activeLocations stats = activeLocations stats'
         \<and> ((\<forall>r \<in> set ratings. 1 \<le> r \<and> r \<le> 5) \<and> length ratings < 2 ^ 32 \<longrightarrow>
              averageRating stats = averageRating stats')
         \<and> ((\<forall>x \<in> set amounts. 0 \<le> x \<and> x < 10 ^ 8) \<and> length amounts < 2 ^ 32 \<longrightarrow>
              (\<exists>sales sales'. todaySales stats = Some sales \<and> todaySales stats' = Some sales'
                 \<and> \<bar>sales - sales'\<bar>
                    \<le> (of_nat (length amounts) + 1) / 2 ^ 51 * sum_list amounts))"
    unfolding Let_def rs_def [symmetric]
    using count active rating sales [OF refl] by blast
qed

text \<open>
  The three orders of 0.10, 0.20 and 0.30 in both orders, a day apart: the same number of
  orders, and two values of todaySales within the bound. The rows of \<open>exampleDb\<close> in both
  orders: the same average rating.
\<close>

theorem dashboard_deterministic_witness:
  "mset (orders ascendingDb) = mset (orders descendingDb)
   \<and> orders ascendingDb \<noteq> orders descendingDb
   \<and> map (\<lambda>x. decimalValue (totalAmount x))
        (filter (\<lambda>x. order.truckId x = 1 \<and> status x = ''completed'') (orders ascendingDb))
      = [1 / 10, 2 / 10, 3 / 10]
   \<and> getDashboardStats 0 1 ascendingDb = getDashboardStats 86400000 1 ascendingDb
   \<and> snd (getDashboardStats 0 1 ascendingDb) = ascendingDb
   \<and> ordersToday (fst (getDashboardStats 0 1 ascendingDb))
      = ordersToday (fst (getDashboardStats 86400000 1 descendingDb))
   \<and> (\<exists>sales sales'. todaySales (fst (getDashboardStats 0 1 ascendingDb)) = Some sales
         \<and> todaySales (fst (getDashboardStats 86400000 1 descendingDb)) = Some sales'
         \<and> \<bar>sales - sales'\<bar> \<le> (of_nat (length [1 / 10, 2 / 10, 3 / 10 :: rat]) + 1) / 2 ^ 51
                                  * sum_list [1 / 10, 2 / 10, 3 / 10])
   \<and> mset (reviews exampleDb) = mset (reviews shuffledDb)
   \<and> map review.rating (filter (\<lambda>r. review.truckId r = 1) (reviews exampleDb)) = [5, 4, 5]
   \<and> averageRating (fst (getDashboardStats 0 1 exampleDb))
      = averageRating (fst (getDashboardStats 86400000 1 shuffledDb))"
proof -
  have same: "mset (orders ascendingDb) = mset (orders descendingDb)
     \<and> mset (reviews ascendingDb) = mset (reviews descendingDb)
     \<and> mset (locations ascendingDb) = mset (locations descendingDb)"
    by (simp add: ascendingDb_def descendingDb_def)
  have differ: "orders ascendingDb \<noteq> orders descendingDb"
    by (simp add: ascendingDb_def descendingDb_def order_of_def)
  have amounts: "map (\<lambda>x. decimalValue (totalAmount x))
        (filter (\<lambda>x. order.truckId x = 1 \<and> status x = ''completed'') (orders ascendingDb))
      = [1 / 10, 2 / 10, 3 / 10]"
    by (simp add: ascendingDb_def order_of_def)
  have range: "(\<forall>x \<in> set [1 / 10, 2 / 10, 3 / 10 :: rat]. 0 \<le> x \<and> x < 10 ^ 8)
     \<and> length [1 / 10, 2 / 10, 3 / 10 :: rat] < 2 ^ 32"
    by simp
  note orders = dashboard_deterministic
    [of 0 1 ascendingDb 86400000 descendingDb, unfolded Let_def amounts]
  have shuffled: "mset (orders exampleDb) = mset (orders shuffledDb)
     \<and> mset (reviews exampleDb) = mset (reviews shuffledDb)
     \<and> mset (locations exampleDb) = mset (locations shuffledDb)"
    by (simp add: shuffledDb_def)
  have ratings: "map review.rating (filter (\<lambda>r. review.truckId r = 1) (reviews exampleDb))
                 = [5, 4, 5]"
    by (simp add: exampleDb_def review_of_def)
  have stars: "(\<forall>r \<in> set [5, 4, 5 :: int]. 1 \<le> r \<and> r \<le> 5) \<and> length [5, 4, 5 :: int] < 2 ^ 32"
    by simp
  note reviews = dashboard_deterministic
    [of 0 1 exampleDb 86400000 shuffledDb, unfolded Let_def ratings]
  have "getDashboardStats 0 1 ascendingDb = getDashboardStats 86400000 1 ascendingDb"
    "snd (getDashboardStats 0 1 ascendingDb) = ascendingDb"
    using orders by blast+
  moreover have "ordersToday (fst (getDashboardStats 0 1 ascendingDb))
      = ordersToday (fst (getDashboardStats 86400000 1 descendingDb))"
    using orders same by blast
  moreover have "\<exists>sales sales'. todaySales (fst (getDashboardStats 0 1 ascendingDb)) = Some sales
         \<and> todaySales (fst (getDashboardStats 86400000 1 descendingDb)) = Some sales'
         \<and> \<bar>sales - sales'\<bar> \<le> (of_nat (length [1 / 10, 2 / 10, 3 / 10 :: rat]) + 1) / 2 ^ 51
                                  * sum_list [1 / 10, 2 / 10, 3 / 10]"
    using orders same range by blast
  moreover have "averageRating (fst (getDashboardStats 0 1 exampleDb))
      = averageRating (fst (getDashboardStats 86400000 1 shuffledDb))"
    using reviews shuffled stars by blast
  ultimately show ?thesis
    using same differ amounts shuffled ratings by (intro conjI) blast+
qed

subsection \<open>C8: rounding to one decimal place\<close>

text \<open>
  C8. The one-decimal rounding used for averageRating is idempotent, for every rational x:
  round1 (round1 x) = round1 x. This holds for the rounding as the code computes it
  (\<^verbatim>\<open>Math.round\<close>) and for the rounding as the specification words it (half away from zero).
\<close>

theorem round1_idempotent:
  "round1 (round1 x) = round1 x \<and> round1_spec (round1_spec x) = round1_spec x"
  by (simp add: round1_def round1_spec_def Math_round_of_int round_half_away_of_int)

subsection \<open>C9: a threshold of zero\<close>

text \<open>
  C9, as stated, at an item whose lowStockThreshold and currentStock are both 0: the
  threshold reaches the pages as the text "0.00", which is truthy, and the item is
  flagged by both filters and by getStockStatus.
\<close>

theorem zero_threshold_counterexample:
  "lowStockThreshold napkins = Some (Hundredths 0)
   \<and> lowStockThreshold (inventoryItemJson napkins) = JStr ''0.00''
   \<and> inventoryItem.currentStock (inventoryItemJson napkins) = JStr ''0.00''
   \<and> truthy (JStr ''0.00'')
   \<and> Number_prim (JStr ''0.00'') = Some 0
   \<and> lowStockItems_inventoryPage [inventoryItemJson napkins]
       = [inventoryItemJson napkins]
   \<and> lowStockItems_dashboard (Some [inventoryItemJson napkins])
       = [inventoryItemJson napkins]
   \<and> getStockStatus (inventoryItemJson napkins) = (''low'', ''destructive'')"
  by (simp add: napkins_def inventoryItemJson_def digits.simps digitChar_def
        lowStockItems_inventoryPage_def lowStockItems_dashboard_def getStockStatus_def
        lowStockCondition_def Number_string_def unsignedNumber_def digitValue_def)

text \<open>
  C9, amended. An item whose lowStockThreshold is falsy (null, undefined, the empty text or
  the number 0) is never flagged by either filter nor by getStockStatus, whatever its
  currentStock. A threshold of zero stored in the table is not falsy: it arrives as the
  text "0.00", and the item is flagged exactly when its currentStock \<open>\<le>\<close> 0.
\<close>

theorem zero_threshold:
  "(lowStockThreshold item \<in> {JUndefined, JNull, JStr '''', JNum 0} \<longrightarrow>
      item \<notin> set (lowStockItems_inventoryPage inventory)
      \<and> item \<notin> set (lowStockItems_dashboard (Some inventory))
      \<and> getStockStatus item = (''normal'', ''default''))
   \<and> (lowStockThreshold row = Some (Hundredths 0) \<longrightarrow>
        lowStockThreshold (inventoryItemJson row) = JStr ''0.00''
      \<and> (lowStockItems_inventoryPage [inventoryItemJson row] = [inventoryItemJson row])
          = (decimalValue (inventoryItem.currentStock row) \<le> 0)
      \<and> (lowStockItems_dashboard (Some [inventoryItemJson row]) = [inventoryItemJson row])
          = (decimalValue (inventoryItem.currentStock row) \<le> 0)
      \<and> (getStockStatus (inventoryItemJson row) = (''low'', ''destructive''))
          = (decimalValue (inventoryItem.currentStock row) \<le> 0))"
proof (intro conjI impI)
  assume "lowStockThreshold item \<in> {JUndefined, JNull, JStr '''', JNum 0}"
  then have falsy: "\<not> lowStockCondition item"
    by (auto simp: lowStockCondition_def)
  then show "item \<notin> set (lowStockItems_inventoryPage inventory)"
    by (simp add: lowStockItems_inventoryPage_def)
  from falsy show "item \<notin> set (lowStockItems_dashboard (Some inventory))"
    by (simp add: lowStockItems_dashboard_def)
  from falsy show "getStockStatus item = (''normal'', ''default'')"
    by (simp add: getStockStatus_def)
next
  assume zero: "lowStockThreshold row = Some (Hundredths 0)"
  then show "lowStockThreshold (inventoryItemJson row) = JStr ''0.00''"
    by (simp add: inventoryItemJson_def digits.simps digitChar_def)
  have cond: "lowStockCondition (inventoryItemJson row)
              = (decimalValue (inventoryItem.currentStock row) \<le> 0)"
    using zero by (simp add: lowStockCondition_json flagged_spec_def)
  show "(lowStockItems_inventoryPage [inventoryItemJson row] = [inventoryItemJson row])
        = (decimalValue (inventoryItem.currentStock row) \<le> 0)"
    by (simp add: lowStockItems_inventoryPage_def cond)
  show "(lowStockItems_dashboard (Some [inventoryItemJson row]) = [inventoryItemJson row])
        = (decimalValue (inventoryItem.currentStock row) \<le> 0)"
    by (simp add: lowStockItems_dashboard_def cond)
  show "(getStockStatus (inventoryItemJson row) = (''low'', ''destructive''))
        = (decimalValue (inventoryItem.currentStock row) \<le> 0)"
    by (simp add: getStockStatus_def cond)
qed

text \<open>
  The same item with the number 0 as its threshold is not flagged; the row with the
  decimal 0 is, and stops being so once its stock is positive.
\<close>

theorem zero_threshold_witness:
  "lowStockThreshold ((inventoryItemJson napkins)\<lparr>lowStockThreshold := JNum 0\<rparr>)
     \<in> {JUndefined, JNull, JStr '''', JNum 0}
   \<and> lowStockItems_inventoryPage
         [(inventoryItemJson napkins)\<lparr>lowStockThreshold := JNum 0\<rparr>] = []
   \<and> lowStockThreshold napkins = Some (Hundredths 0)
   \<and> getStockStatus (inventoryItemJson napkins) = (''low'', ''destructive'')
   \<and> getStockStatus
         (inventoryItemJson (napkins\<lparr>inventoryItem.currentStock := Hundredths 1\<rparr>))
       = (''normal'', ''default'')"
proof -
  let ?numeric = "(inventoryItemJson napkins)\<lparr>lowStockThreshold := JNum 0\<rparr>"
  let ?stocked = "napkins\<lparr>inventoryItem.currentStock := Hundredths 1\<rparr>"
  have zero: "lowStockThreshold napkins = Some (Hundredths 0)"
             "lowStockThreshold ?stocked = Some (Hundredths 0)"
    by (simp_all add: napkins_def)
  have falsy: "lowStockThreshold ?numeric \<in> {JUndefined, JNull, JStr '''', JNum 0}"
    by simp
  show ?thesis
    using zero falsy
      zero_threshold [of ?numeric "[?numeric]" napkins]
      zero_threshold [of ?numeric "[?numeric]" ?stocked]
    by (simp add: lowStockItems_inventoryPage_def getStockStatus_def napkins_def
          split: if_splits)
qed

subsection \<open>C10: the three computations of the average rating\<close>

text \<open>
  C10. The Reviews page and the Profile page compute the same unrounded mean, and both
  return 0 on an empty sequence. For ratings in 1..5 (fewer than \<open>2 ^ 32\<close> of them) that mean
  is the number nearest to the exact mean of the ratings, and when the reviews of the truck
  are the reviews rs in any order, the dashboard's averageRating is round1 of that same
  mean, with round1 the rounding half away from zero of the specification: it is the
  number nearest to round1 of the exact mean, and it is what round1 computes from the
  number of the pages.
\<close>

theorem average_ratings_agree:
  "averageRating_reviewsPage rs = averageRating_profilePage rs
   \<and> averageRating_reviewsPage [] = Some 0 \<and> averageRating_profilePage [] = Some 0
   \<and> ((\<forall>r \<in> set rs. 1 \<le> review.rating r \<and> review.rating r \<le> 5) \<and> length rs < 2 ^ 32
       \<and> mset (filter (\<lambda>r. review.truckId r = t) (reviews d)) = mset rs \<longrightarrow>
       (let mean = of_int (sum_list (map review.rating rs)) / of_nat (length rs);
            avg = averageRating (fst (getDashboardStats now t d))
        in averageRating_reviewsPage rs = Some (if rs = [] then 0 else binary64 mean)
         \<and> avg = Some (if rs = [] then 0 else binary64 (round1_spec mean))
         \<and> avg = round1_spec64 (averageRating_reviewsPage rs)))"
proof (intro conjI impI)
  show "averageRating_reviewsPage rs = averageRating_profilePage rs"
    by (simp add: averageRating_reviewsPage_def averageRating_profilePage_def)
  show "averageRating_reviewsPage [] = Some 0"
    by (simp add: averageRating_reviewsPage_def)
  show "averageRating_profilePage [] = Some 0"
    by (simp add: averageRating_profilePage_def)
next
  assume hyps: "(\<forall>r \<in> set rs. 1 \<le> review.rating r \<and> review.rating r \<le> 5) \<and> length rs < 2 ^ 32
       \<and> mset (filter (\<lambda>r. review.truckId r = t) (reviews d)) = mset rs"
  define S where "S = sum_list (map review.rating rs)"
  define n where "n = int (length rs)"
  have range: "\<forall>r \<in> set rs. 1 \<le> review.rating r \<and> review.rating r \<le> 5"
    and size: "length rs < 2 ^ 32"
    and same: "mset (filter (\<lambda>r. review.truckId r = t) (reviews d)) = mset rs"
    using hyps by simp_all
  have page: "averageRating_reviewsPage rs
              = Some (if rs = [] then 0 else binary64 (of_int S / of_nat (length rs)))"
    unfolding S_def using range size by (rule averageRating_page)
  have dashboard: "averageRating (fst (getDashboardStats now t d))
        = Some (if rs = [] then 0 else binary64 (round1_spec (of_int S / of_nat (length rs))))"
    unfolding S_def using same range size by (rule averageRating_mset)
  have computed: "averageRating (fst (getDashboardStats now t d))
                  = round1_spec64 (averageRating_reviewsPage rs)"
  proof (cases "rs = []")
    case True
    then show ?thesis using dashboard page by (simp add: round1_spec64_zero)
  next
    case False
    have n: "0 < n" "n < 2 ^ 32" using False size by (simp_all add: n_def)
    have S: "n \<le> S" "S \<le> 5 * n"
      using sum_list_ratings [OF range] by (simp_all add: S_def n_def)
    have "round1_spec64 (Some (binary64 (of_int S / of_int n)))
          = Some (binary64 (round1_spec (of_int S / of_int n)))"
      using n S by (rule round1_spec64_mean)
    then show ?thesis using False dashboard page by (simp add: n_def)
  qed
  show "let mean = of_int (sum_list (map review.rating rs)) / of_nat (length rs);
            avg = averageRating (fst (getDashboardStats now t d))
        in averageRating_reviewsPage rs = Some (if rs = [] then 0 else binary64 mean)
         \<and> avg = Some (if rs = [] then 0 else binary64 (round1_spec mean))
         \<and> avg = round1_spec64 (averageRating_reviewsPage rs)"
    unfolding Let_def S_def [symmetric] using page dashboard computed by blast
qed

text \<open>
  The pages receive the reviews of truck 1 newest first, with the ratings 5, 4, 5: their
  mean is the number 4.666666666666667 and the dashboard shows 4.7.
\<close>

theorem average_ratings_agree_witness:
  "mset (filter (\<lambda>r. review.truckId r = 1) (reviews exampleDb))
     = mset [review_of 4 1 5, review_of 3 1 4, review_of 1 1 5]
   \<and> map review.rating [review_of 4 1 5, review_of 3 1 4, review_of 1 1 5] = [5, 4, 5]
   \<and> averageRating_profilePage [review_of 4 1 5, review_of 3 1 4, review_of 1 1 5]
     = Some (binary64 (14 / 3))
   \<and> binary64 (14 / 3) = 5254199565265579 / 1125899906842624
   \<and> averageRating (fst (getDashboardStats 0 1 exampleDb)) = Some (binary64 (47 / 10))
   \<and> averageRating (fst (getDashboardStats 0 1 exampleDb))
     = round1_spec64 (averageRating_reviewsPage [review_of 4 1 5, review_of 3 1 4, review_of 1 1 5])"
proof -
  let ?rs = "[review_of 4 1 5, review_of 3 1 4, review_of 1 1 5]"
  have same: "mset (filter (\<lambda>r. review.truckId r = 1) (reviews exampleDb)) = mset ?rs"
    by (simp add: exampleDb_def review_of_def)
  have ratings: "map review.rating ?rs = [5, 4, 5]" by (simp add: review_of_def)
  have range: "(\<forall>r \<in> set ?rs. 1 \<le> review.rating r \<and> review.rating r \<le> 5) \<and> length ?rs < 2 ^ 32"
    by (simp add: review_of_def)
  have mean: "(of_int (sum_list [5, 4, 5]) :: rat) / of_nat (length ?rs) = 14 / 3" by simp
  have rounded: "round1_spec (14 / 3) = 47 / 10"
    by (simp add: round1_spec_def round_half_away_from_zero_def floor_eval)
  have number: "binary64 (14 / 3) = 5254199565265579 / 1125899906842624" by code_simp
  have nonempty: "(if ?rs = [] then a else b) = b" for a b :: rat by simp
  note agree = average_ratings_agree
    [of ?rs 1 exampleDb 0, unfolded Let_def ratings mean rounded nonempty]
  have eq: "averageRating_reviewsPage ?rs = averageRating_profilePage ?rs"
    using agree by blast
  have "averageRating_reviewsPage ?rs = Some (binary64 (14 / 3))"
    using agree range same by blast
  then have profile: "averageRating_profilePage ?rs = Some (binary64 (14 / 3))"
    unfolding eq .
  have dashboard: "averageRating (fst (getDashboardStats 0 1 exampleDb)) = Some (binary64 (47 / 10))"
    using agree range same by blast
  have computed: "averageRating (fst (getDashboardStats 0 1 exampleDb))
                 = round1_spec64 (averageRating_reviewsPage ?rs)"
    using agree range same by blast
  show ?thesis
    using same ratings profile number dashboard computed by (intro conjI)
qed

end
